theory Spec2Isabelle
  imports Main "HOL-Library.Word"
begin

unbundle bit_operations_syntax

section \<open>The TUN dispatcher of pkg/tun/dispatcher.go\<close>

text \<open>
  The dispatcher sits between a TUN device and a registry of per-flow handlers. This
  theory embeds \<^verbatim>\<open>Dispatcher\<close> and its methods as state-passing functions. Every
  effect of the Go code on something outside the struct (the log, the buffer pool, the
  device, the handlers' inboxes) is a field of the state, appended to in program order.
\<close>

subsection \<open>Go's net.IP\<close>

text \<open>
  \<^verbatim>\<open>net.IP\<close> is a byte slice of length 4 or 16. The three predicates below are those
  of Go's standard library, which \<^verbatim>\<open>handlePacket\<close> and \<^verbatim>\<open>udp\<close> call.
\<close>

type_synonym IP = "8 word list"

definition isZeros :: "8 word list \<Rightarrow> bool" where
  "isZeros p = list_all (\<lambda>b. b = 0) p"

definition v4InV6Prefix :: "8 word list" where
  "v4InV6Prefix = [0, 0, 0, 0, 0, 0, 0, 0, 0, 0, 0xff, 0xff]"

definition To4 :: "IP \<Rightarrow> IP option" where
  "To4 ip =
     (if length ip = 4 then Some ip
      else if length ip = 16 \<and> isZeros (take 10 ip) \<and> ip ! 10 = 0xff \<and> ip ! 11 = 0xff
      then Some (drop 12 ip)
      else None)"

definition IsLinkLocalUnicast :: "IP \<Rightarrow> bool" where
  "IsLinkLocalUnicast ip =
     (case To4 ip of
        Some ip4 \<Rightarrow> ip4 ! 0 = 169 \<and> ip4 ! 1 = 254
      | None \<Rightarrow> length ip = 16 \<and> ip ! 0 = 0xfe \<and> (ip ! 1) AND 0xc0 = 0x80)"

definition IsLinkLocalMulticast :: "IP \<Rightarrow> bool" where
  "IsLinkLocalMulticast ip =
     (case To4 ip of
        Some ip4 \<Rightarrow> ip4 ! 0 = 224 \<and> ip4 ! 1 = 0 \<and> ip4 ! 2 = 0
      | None \<Rightarrow> length ip = 16 \<and> ip ! 0 = 0xff \<and> (ip ! 1) AND 0x0f = 0x02)"

definition IP_Equal :: "IP \<Rightarrow> IP \<Rightarrow> bool" where
  "IP_Equal ip x =
     (if length ip = length x then ip = x
      else if length ip = 4 \<and> length x = 16 then take 12 x = v4InV6Prefix \<and> ip = drop 12 x
      else if length ip = 16 \<and> length x = 4 then take 12 ip = v4InV6Prefix \<and> drop 12 ip = x
      else False)"

subsection \<open>Packets as the codec packages present them\<close>

text \<open>
  Modelled from the spec: the Packet/Header Codec (packages \<^verbatim>\<open>ip\<close>, \<^verbatim>\<open>tcp\<close>,
  \<^verbatim>\<open>udp\<close>, \<^verbatim>\<open>buffer\<close>) is not among the sources. A parsed header is the record of
  what its accessors return (IP version, header length, declared payload length, L4
  protocol number, source and destination address, and for IPv4 the flags, fragment
  offset and fragmentation ID); a buffer is represented by its identity in the pool
  and by what the codecs read from its bytes.
\<close>

record Header =
  Version :: int
  HeaderLen :: int
  PayloadLen :: int
  L4Protocol :: int
  Source :: IP
  Destination :: IP
  Flags :: int
  FragmentOffset :: int
  ID :: "16 word"

record L4Header =
  SourcePort :: "16 word"
  DestinationPort :: "16 word"
  SYN :: bool
  RST :: bool

datatype error =
    ErrorsNew string
  | CtxErr
  | ParseError
  | ExternalError string

record Data =
  bufId :: nat
  ParseHeader :: "error + Header"
  l4Header :: L4Header

datatype TCPPacket = PacketFromData Header Data

datatype Datagram = DatagramFromData Header Data

fun tcp_IPHeader :: "TCPPacket \<Rightarrow> Header" where
  "tcp_IPHeader (PacketFromData h b) = h"

fun tcp_Header :: "TCPPacket \<Rightarrow> L4Header" where
  "tcp_Header (PacketFromData h b) = l4Header b"

fun udp_IPHeader :: "Datagram \<Rightarrow> Header" where
  "udp_IPHeader (DatagramFromData h b) = h"

fun udp_Header :: "Datagram \<Rightarrow> L4Header" where
  "udp_Header (DatagramFromData h b) = l4Header b"

definition ipv4_Version :: int where "ipv4_Version = 4"
definition ipv4_MoreFragments :: int where "ipv4_MoreFragments = 1"

definition IPPROTO_ICMP :: int where "IPPROTO_ICMP = 1"
definition IPPROTO_TCP :: int where "IPPROTO_TCP = 6"
definition IPPROTO_UDP :: int where "IPPROTO_UDP = 17"
definition IPPROTO_ICMPV6 :: int where "IPPROTO_ICMPV6 = 58"

lemmas proto_defs = IPPROTO_ICMP_def IPPROTO_TCP_def IPPROTO_UDP_def IPPROTO_ICMPV6_def

subsection \<open>What travels on the outbound queue\<close>

datatype Unreachable = MustFragment | HostUnreachable | PortUnreachable | ProtocolUnreachable

text \<open>
  \<^verbatim>\<open>toTunCh\<close> carries \<^verbatim>\<open>ip.Packet\<close> values. The dispatcher itself queues two kinds:
  the result of \<^verbatim>\<open>icmp.DestinationUnreachablePacket(mtu, ipHdr, code)\<close> and the
  result of \<^verbatim>\<open>pkt.Reset()\<close>. Flow handlers queue packets of their own, which the
  dispatcher never inspects.
\<close>

datatype Packet =
    DestinationUnreachablePacket "16 word" Header Unreachable
  | Reset TCPPacket
  | HandlerPacket nat


subsection \<open>The connection registry and the flow handlers\<close>

datatype ConnID = NewConnID int IP IP "16 word" "16 word"

text \<open>
  A handler is known to the dispatcher only through the constructor that made it.
  The first argument is the instance: two handlers are the same Go object exactly
  when they carry the same number.
\<close>

datatype Handler =
    TCPHandler nat ConnID
  | UDPHandler nat ConnID
  | DnsInterceptor nat ConnID

datatype Delivery =
    HandlePacket Handler TCPPacket
  | NewDatagram Handler Datagram

datatype LogEntry =
    Error string
  | ErrorErr error
  | DebugFromTunTCP TCPPacket
  | DebugFromTunUDP Datagram
  | DebugFromTunICMP Header Data
  | DebugToTun Packet

datatype panic = TypeAssertionFailed

subsection \<open>The dispatcher\<close>

text \<open>
  The fields from \<^verbatim>\<open>devClosed\<close> to \<^verbatim>\<open>closing\<close> are the Go struct.
  \<^verbatim>\<open>devClosed\<close> and \<^verbatim>\<open>devWritten\<close> stand for \<^verbatim>\<open>dev\<close>: the device's state as far
  as the dispatcher drives it, whether \<^verbatim>\<open>Close\<close> was called and what was handed to
  \<^verbatim>\<open>Write\<close>. \<^verbatim>\<open>handlers\<close> is the map of the \<^verbatim>\<open>connpool.Pool\<close>,
  \<^verbatim>\<open>handlersWg\<close> the counter of the \<^verbatim>\<open>sync.WaitGroup\<close>, \<^verbatim>\<open>toTunCh\<close> the content
  of the channel, \<^verbatim>\<open>closing\<close> the \<^verbatim>\<open>int32\<close> flag (0 running, 1 closing, 2 closed).
  \<^verbatim>\<open>dnsLocalAddr\<close> and \<^verbatim>\<open>mgrConfigured\<close> are left out: nothing below reads them.

  The fields from \<^verbatim>\<open>dlog\<close> on record the effects outside the struct, in program
  order: log entries, buffers put back into \<^verbatim>\<open>buffer.DataPool\<close>, packets released
  with \<^verbatim>\<open>SoftRelease\<close>, packets handed to handlers, the handler instances created so
  far, the instances whose task runs, the instances told to close, the factory
  invocations of the registry, and the ports dialled.
\<close>

record Dispatcher =
  devClosed :: bool
  devWritten :: "Packet list"
  managerClient :: "nat option"
  connStream :: "nat option"
  handlers :: "ConnID \<rightharpoonup> Handler"
  handlersWg :: int
  toTunCh :: "Packet list"
  fragmentMap :: "16 word \<rightharpoonup> Data list"
  dnsIP :: IP
  dnsPort :: "16 word"
  closing :: int
  dlog :: "LogEntry list"
  poolPut :: "Data list"
  softReleased :: "Packet list"
  delivered :: "Delivery list"
  created :: nat
  running :: "nat set"
  closeSignalled :: "nat set"
  factoryCalls :: "ConnID list"
  dials :: "int list"

text \<open>
  What the surroundings decide: the MTU of the buffer pool, whether the context is
  cancelled, which ready case a \<^verbatim>\<open>select\<close> takes, the fragment reassembler
  (\<^verbatim>\<open>ConcatFragments\<close>, not among the sources, so every theorem holds for any
  reassembler), and the outcomes of calls that leave the process.
\<close>

datatype SelectCase = CaseDone | CaseOther

record Env =
  MTU :: int
  ctxDone :: bool
  selectPick :: SelectCase
  ConcatFragments :: "Header \<Rightarrow> Data \<Rightarrow> (16 word \<rightharpoonup> Data list)
                        \<Rightarrow> Data option \<times> (16 word \<rightharpoonup> Data list)"
  NewDnsInterceptorErr :: "error option"
  devWriteErr :: "Packet \<Rightarrow> error option"
  DialContext :: "int \<Rightarrow> error + nat"
  CheckTimeout :: "error \<Rightarrow> error"

text \<open>\<^verbatim>\<open>dlog.Error\<close> and \<^verbatim>\<open>dlog.Debugf\<close> append one entry to the log.\<close>

definition dlog_write :: "LogEntry \<Rightarrow> Dispatcher \<Rightarrow> Dispatcher" where
  "dlog_write l d = d\<lparr>dlog := dlog d @ [l]\<rparr>"

definition DataPool_Put :: "Data \<Rightarrow> Dispatcher \<Rightarrow> Dispatcher" where
  "DataPool_Put b d = d\<lparr>poolPut := poolPut d @ [b]\<rparr>"

text \<open>
  \<^verbatim>\<open>d.toTunCh <- p\<close>. The channel has capacity 100 and a send parks the goroutine
  while it is full; the state below is the one in which the send has completed.
\<close>

definition send :: "Packet \<Rightarrow> Dispatcher \<Rightarrow> Dispatcher" where
  "send p d = d\<lparr>toTunCh := toTunCh d @ [p]\<rparr>"

definition uint16 :: "int \<Rightarrow> 16 word" where
  "uint16 n = word_of_int n"

subsection \<open>The registry's get-or-create and the handler constructors\<close>

text \<open>
  Modelled from the spec: package \<^verbatim>\<open>connpool\<close> is not among the sources. The spec
  says of \<^verbatim>\<open>get-or-create(flowID, factory)\<close>: "if an entry for flowID exists, return
  it; otherwise invoke factory exactly once, store its result keyed by flowID, and
  return it", and that the registry serializes concurrent calls, so one call is one
  atomic step. The factories of \<^verbatim>\<open>tcp\<close> and \<^verbatim>\<open>udp\<close> can fail; a failure is
  returned to the caller and nothing is stored ("produces no handler creation").
  \<^verbatim>\<open>factoryCalls\<close> counts the invocations.
\<close>

definition Pool_Get ::
  "ConnID \<Rightarrow> (Dispatcher \<Rightarrow> (error + Handler) \<times> Dispatcher) \<Rightarrow> Dispatcher
     \<Rightarrow> (error + Handler) \<times> Dispatcher" where
  "Pool_Get connID createHandler d =
     (case handlers d connID of
        Some h \<Rightarrow> (Inr h, d)
      | None \<Rightarrow>
          (case createHandler (d\<lparr>factoryCalls := factoryCalls d @ [connID]\<rparr>) of
             (Inl err, d') \<Rightarrow> (Inl err, d')
           | (Inr h, d') \<Rightarrow> (Inr h, d'\<lparr>handlers := (handlers d')(connID \<mapsto> h)\<rparr>)))"

text \<open>
  Modelled from the spec: the handler constructors (\<^verbatim>\<open>tcp.NewHandler\<close>,
  \<^verbatim>\<open>udp.NewHandler\<close>, \<^verbatim>\<open>udp.NewDnsInterceptor\<close>) are not among the sources. A
  handler "owns its own concurrent task": construction yields a fresh instance whose
  task is running.
\<close>

definition newInstance :: "Dispatcher \<Rightarrow> Dispatcher" where
  "newInstance d = d\<lparr>created := Suc (created d), running := insert (created d) (running d)\<rparr>"

definition tcp_NewHandler :: "ConnID \<Rightarrow> Dispatcher \<Rightarrow> Handler \<times> Dispatcher" where
  "tcp_NewHandler connID d = (TCPHandler (created d) connID, newInstance d)"

definition udp_NewHandler :: "ConnID \<Rightarrow> Dispatcher \<Rightarrow> Handler \<times> Dispatcher" where
  "udp_NewHandler connID d = (UDPHandler (created d) connID, newInstance d)"

definition udp_NewDnsInterceptor ::
  "Env \<Rightarrow> ConnID \<Rightarrow> Dispatcher \<Rightarrow> (error + Handler) \<times> Dispatcher" where
  "udp_NewDnsInterceptor e connID d =
     (case NewDnsInterceptorErr e of
        Some err \<Rightarrow> (Inl err, d)
      | None \<Rightarrow> (Inr (DnsInterceptor (created d) connID), newInstance d))"

definition handlersWg_Add :: "int \<Rightarrow> Dispatcher \<Rightarrow> Dispatcher" where
  "handlersWg_Add n d = d\<lparr>handlersWg := handlersWg d + n\<rparr>"

subsection \<open>Dispatcher.tcp\<close>

text \<open>
  The factory passed to \<^verbatim>\<open>d.handlers.Get\<close>. Its \<^verbatim>\<open>select\<close> has two cases: the
  context's \<^verbatim>\<open>Done\<close> channel and the send of the reset packet. The \<^verbatim>\<open>Done\<close> case
  can be taken only when the context is cancelled; when both cases are ready Go picks
  one of them, which \<^verbatim>\<open>selectPick\<close> decides. With the context live the goroutine
  waits until the send is through.
\<close>

definition tcpFactory ::
  "Env \<Rightarrow> TCPPacket \<Rightarrow> ConnID \<Rightarrow> Dispatcher \<Rightarrow> (error + Handler) \<times> Dispatcher" where
  "tcpFactory e pkt connID d =
     (if RST (tcp_Header pkt)
      then (Inl (ErrorsNew ''dispatching got RST without connection workflow''), d)
      else if \<not> SYN (tcp_Header pkt) \<and> ctxDone e \<and> selectPick e = CaseDone
      then (Inl CtxErr, d)
      else
        (let d1 = (if \<not> SYN (tcp_Header pkt) then send (Reset pkt) d else d);
             d2 = handlersWg_Add 1 d1;
             (h, d3) = tcp_NewHandler connID d2
         in (Inr h, d3)))"

definition tcp_connID :: "TCPPacket \<Rightarrow> ConnID" where
  "tcp_connID pkt =
     NewConnID IPPROTO_TCP (Source (tcp_IPHeader pkt)) (Destination (tcp_IPHeader pkt))
       (SourcePort (tcp_Header pkt)) (DestinationPort (tcp_Header pkt))"

definition tcp :: "Env \<Rightarrow> TCPPacket \<Rightarrow> Dispatcher \<Rightarrow> panic + Dispatcher" where
  "tcp e pkt d =
     (let d1 = dlog_write (DebugFromTunTCP pkt) d;
          connID = tcp_connID pkt
      in case Pool_Get connID (tcpFactory e pkt connID) d1 of
           (Inl err, d2) \<Rightarrow> Inr (dlog_write (ErrorErr err) d2)
         | (Inr w, d2) \<Rightarrow>
             (case w of
                TCPHandler n c \<Rightarrow> Inr (d2\<lparr>delivered := delivered d2 @ [HandlePacket w pkt]\<rparr>)
              | _ \<Rightarrow> Inl TypeAssertionFailed))"

subsection \<open>Dispatcher.udp\<close>

definition udpFactory ::
  "Env \<Rightarrow> Datagram \<Rightarrow> ConnID \<Rightarrow> Dispatcher \<Rightarrow> (error + Handler) \<times> Dispatcher" where
  "udpFactory e dg connID d =
     (let d1 = handlersWg_Add 1 d
      in if DestinationPort (udp_Header dg) = dnsPort d1
            \<and> IP_Equal (Destination (udp_IPHeader dg)) (dnsIP d1)
         then udp_NewDnsInterceptor e connID d1
         else (let (h, d2) = udp_NewHandler connID d1 in (Inr h, d2)))"

definition udp_connID :: "Datagram \<Rightarrow> ConnID" where
  "udp_connID dg =
     NewConnID IPPROTO_UDP (Source (udp_IPHeader dg)) (Destination (udp_IPHeader dg))
       (SourcePort (udp_Header dg)) (DestinationPort (udp_Header dg))"

definition udp :: "Env \<Rightarrow> Datagram \<Rightarrow> Dispatcher \<Rightarrow> panic + Dispatcher" where
  "udp e dg d =
     (let d1 = dlog_write (DebugFromTunUDP dg) d;
          connID = udp_connID dg
      in case Pool_Get connID (udpFactory e dg connID) d1 of
           (Inl err, d2) \<Rightarrow> Inr (dlog_write (ErrorErr err) d2)
         | (Inr uh, d2) \<Rightarrow>
             (case uh of
                TCPHandler n c \<Rightarrow> Inl TypeAssertionFailed
              | _ \<Rightarrow> Inr (d2\<lparr>delivered := delivered d2 @ [NewDatagram uh dg]\<rparr>)))"

subsection \<open>Dispatcher.handlePacket\<close>

definition blockedUDPPorts :: "16 word \<rightharpoonup> bool" where
  "blockedUDPPorts = [137 \<mapsto> True, 138 \<mapsto> True, 139 \<mapsto> True]"

text \<open>Indexing a Go map of booleans: a missing key reads as false.\<close>

definition blocked :: "16 word \<Rightarrow> bool" where
  "blocked p = (case blockedUDPPorts p of Some b \<Rightarrow> b | None \<Rightarrow> False)"

text \<open>
  The deferred function of \<^verbatim>\<open>handlePacket\<close>: it returns the buffer to the pool
  unless the variable \<^verbatim>\<open>data\<close> is nil when the function returns.
\<close>

definition deferred :: "Data option \<Rightarrow> Dispatcher \<Rightarrow> Dispatcher" where
  "deferred data d = (case data of None \<Rightarrow> d | Some b \<Rightarrow> DataPool_Put b d)"

definition subnetZero :: "IP \<Rightarrow> bool" where
  "subnetZero dst = (case To4 dst of Some ip4 \<Rightarrow> ip4 ! 2 = 0 \<and> ip4 ! 3 = 0 | None \<Rightarrow> False)"

definition unreachable :: "Env \<Rightarrow> Header \<Rightarrow> Unreachable \<Rightarrow> Dispatcher \<Rightarrow> Dispatcher" where
  "unreachable e ipHdr code d =
     send (DestinationUnreachablePacket (uint16 (MTU e)) ipHdr code) d"

text \<open>
  The block guarded by \<^verbatim>\<open>ipHdr.Version() == ipv4.Version\<close>. It yields the value of
  the variable \<^verbatim>\<open>data\<close> after the block: the buffer that was read, the reassembled
  buffer, or nil when the reassembler holds the fragment back. The reassembler takes
  the fragment over and updates the fragment map.
\<close>

definition isFragment :: "Header \<Rightarrow> bool" where
  "isFragment ipHdr =
     ((Flags ipHdr) AND ipv4_MoreFragments \<noteq> 0 \<or> FragmentOffset ipHdr \<noteq> 0)"

definition reassembled :: "Env \<Rightarrow> Header \<Rightarrow> Data \<Rightarrow> Dispatcher \<Rightarrow> Data option \<times> Dispatcher" where
  "reassembled e ipHdr data d =
     (if Version ipHdr = ipv4_Version then
        (if isFragment ipHdr then
           (let (data', fm) = ConcatFragments e ipHdr data (fragmentMap d)
            in (data', d\<lparr>fragmentMap := fm\<rparr>))
         else (Some data, d))
      else (Some data, d))"

text \<open>
  The \<^verbatim>\<open>switch\<close> on the L4 protocol. Go's cases do not fall through: the case of
  \<^verbatim>\<open>IPPROTO_ICMP\<close> has an empty body. \<^verbatim>\<open>ipHdr\<close> is the header parsed from the
  buffer that was read, also after reassembly.
\<close>

definition switchL4 :: "Env \<Rightarrow> Header \<Rightarrow> Data \<Rightarrow> Dispatcher \<Rightarrow> panic + Dispatcher" where
  "switchL4 e ipHdr data d =
     (if L4Protocol ipHdr = IPPROTO_TCP then
        (case tcp e (PacketFromData ipHdr data) d of
           Inl p \<Rightarrow> Inl p
         | Inr d' \<Rightarrow> Inr (deferred None d'))
      else if L4Protocol ipHdr = IPPROTO_UDP then
        (let dst = Destination ipHdr in
         if IsLinkLocalUnicast dst \<or> IsLinkLocalMulticast dst then
           Inr (deferred (Some data) d)
         else if subnetZero dst then
           Inr (deferred (Some data) (unreachable e ipHdr HostUnreachable d))
         else
           (let dg = DatagramFromData ipHdr data in
            if blocked (SourcePort (udp_Header dg)) \<or> blocked (DestinationPort (udp_Header dg))
            then Inr (deferred (Some data) (unreachable e ipHdr PortUnreachable d))
            else
              (case udp e dg d of
                 Inl p \<Rightarrow> Inl p
               | Inr d' \<Rightarrow> Inr (deferred None d'))))
      else if L4Protocol ipHdr = IPPROTO_ICMP then
        Inr (deferred (Some data) d)
      else if L4Protocol ipHdr = IPPROTO_ICMPV6 then
        Inr (deferred (Some data) (dlog_write (DebugFromTunICMP ipHdr data) d))
      else
        Inr (deferred (Some data) (unreachable e ipHdr ProtocolUnreachable d)))"

definition handlePacket :: "Env \<Rightarrow> Data \<Rightarrow> Dispatcher \<Rightarrow> panic + Dispatcher" where
  "handlePacket e data d =
     (case ParseHeader data of
        Inl err \<Rightarrow>
          Inr (deferred (Some data) (dlog_write (Error ''Unable to parse package header'') d))
      | Inr ipHdr \<Rightarrow>
          if PayloadLen ipHdr > MTU e - HeaderLen ipHdr then
            Inr (deferred (Some data) (unreachable e ipHdr MustFragment d))
          else
            (case reassembled e ipHdr data d of
               (None, d1) \<Rightarrow> Inr (deferred None d1)
             | (Some data1, d1) \<Rightarrow> switchL4 e ipHdr data1 d1))"


subsection \<open>Dispatcher.SetManagerInfo\<close>

record ManagerInfo =
  GrpcPort :: int

text \<open>
  \<^verbatim>\<open>grpc.DialContext\<close> leaves the process: \<^verbatim>\<open>DialContext e\<close> is its outcome for a
  port, and \<^verbatim>\<open>dials\<close> records each call. \<^verbatim>\<open>client.CheckTimeout\<close> is not among the
  sources; it turns the dial's error into the error that is reported.
  \<^verbatim>\<open>manager.NewManagerClient\<close> wraps the connection, which stands for the client.
  The result is Go's \<^verbatim>\<open>error\<close>: \<^verbatim>\<open>None\<close> is nil.
\<close>

definition SetManagerInfo :: "Env \<Rightarrow> ManagerInfo \<Rightarrow> Dispatcher \<Rightarrow> error option \<times> Dispatcher" where
  "SetManagerInfo e mi d =
     (if managerClient d = None then
        (let d1 = d\<lparr>dials := dials d @ [GrpcPort mi]\<rparr>
         in case DialContext e (GrpcPort mi) of
              Inl err \<Rightarrow> (Some (CheckTimeout e err), d1)
            | Inr conn \<Rightarrow> (None, d1\<lparr>managerClient := Some conn\<rparr>))
      else (None, d))"

text \<open>A caller that calls again and again, each time with its own surroundings.\<close>

fun SetManagerInfos ::
  "(Env \<times> ManagerInfo) list \<Rightarrow> Dispatcher \<Rightarrow> error option list \<times> Dispatcher" where
  "SetManagerInfos [] d = ([], d)"
| "SetManagerInfos ((e, mi) # calls) d =
     (let (r, d1) = SetManagerInfo e mi d;
          (rs, d2) = SetManagerInfos calls d1
      in (r # rs, d2))"

subsection \<open>Dispatcher.Stop\<close>

fun instanceOf :: "Handler \<Rightarrow> nat" where
  "instanceOf (TCPHandler n c) = n"
| "instanceOf (UDPHandler n c) = n"
| "instanceOf (DnsInterceptor n c) = n"

definition atomic_StoreInt32_closing :: "int \<Rightarrow> Dispatcher \<Rightarrow> Dispatcher" where
  "atomic_StoreInt32_closing v d = d\<lparr>closing := v\<rparr>"

text \<open>
  Modelled from the spec: \<^verbatim>\<open>Pool.CloseAll\<close> is not among the sources. The spec:
  "signals every live handler to terminate (cooperative cancellation) without itself
  waiting for termination".
\<close>

definition handlers_CloseAll :: "Dispatcher \<Rightarrow> Dispatcher" where
  "handlers_CloseAll d =
     d\<lparr>closeSignalled := closeSignalled d \<union> instanceOf ` ran (handlers d)\<rparr>"

text \<open>
  \<^verbatim>\<open>sync.WaitGroup.Wait\<close> returns when the counter is zero and blocks otherwise:
  \<^verbatim>\<open>None\<close> is the blocked call, which only another goroutine can release.
\<close>

definition handlersWg_Wait :: "Dispatcher \<Rightarrow> Dispatcher option" where
  "handlersWg_Wait d = (if handlersWg d = 0 then Some d else None)"

definition dev_Close :: "Dispatcher \<Rightarrow> Dispatcher" where
  "dev_Close d = d\<lparr>devClosed := True\<rparr>"

text \<open>\<^verbatim>\<open>Stop\<close> run on its own, with no other goroutine taking a step in between.\<close>

definition Stop :: "Dispatcher \<Rightarrow> Dispatcher option" where
  "Stop d =
     (case handlersWg_Wait (handlers_CloseAll (atomic_StoreInt32_closing 1 d)) of
        None \<Rightarrow> None
      | Some d1 \<Rightarrow> Some (dev_Close (atomic_StoreInt32_closing 2 d1)))"

subsection \<open>The TUN writer of Dispatcher.Run\<close>

text \<open>
  One pass through the writer's \<^verbatim>\<open>for\<close> loop. The \<^verbatim>\<open>select\<close> takes the
  \<^verbatim>\<open>Done\<close> case only when the context is cancelled, and a packet only when the queue
  holds one; with neither ready the goroutine is parked. \<^verbatim>\<open>devWriteErr e\<close> is the
  outcome of \<^verbatim>\<open>d.dev.Write\<close>.
\<close>

datatype Loop = Continue | Return "error option" | Parked

definition pkt_SoftRelease :: "Packet \<Rightarrow> Dispatcher \<Rightarrow> Dispatcher" where
  "pkt_SoftRelease pkt d = d\<lparr>softReleased := softReleased d @ [pkt]\<rparr>"

definition dev_Write :: "Env \<Rightarrow> Packet \<Rightarrow> Dispatcher \<Rightarrow> error option \<times> Dispatcher" where
  "dev_Write e pkt d = (devWriteErr e pkt, d\<lparr>devWritten := devWritten d @ [pkt]\<rparr>)"

definition writerIteration :: "Env \<Rightarrow> Dispatcher \<Rightarrow> Loop \<times> Dispatcher" where
  "writerIteration e d =
     (if \<not> closing d < 2 then (Return None, d)
      else if ctxDone e \<and> (toTunCh d = [] \<or> selectPick e = CaseDone) then (Return None, d)
      else
        (case toTunCh d of
           [] \<Rightarrow> (Parked, d)
         | pkt # rest \<Rightarrow>
             (let d1 = dlog_write (DebugToTun pkt) (d\<lparr>toTunCh := rest\<rparr>);
                  (err, d2) = dev_Write e pkt d1;
                  d3 = pkt_SoftRelease pkt d2
              in case err of
                   None \<Rightarrow> (Continue, d3)
                 | Some er \<Rightarrow>
                     (Return (if closing d3 = 2 \<or> ctxDone e then None else Some er), d3))))"

lemma writerIteration_Continue:
  "writerIteration e d = (Continue, d') \<Longrightarrow> length (toTunCh d') < length (toTunCh d)"
  by (auto simp: writerIteration_def dev_Write_def pkt_SoftRelease_def dlog_write_def Let_def
      split: if_splits list.splits option.splits)

function tunWriter :: "Env \<Rightarrow> Dispatcher \<Rightarrow> Loop \<times> Dispatcher" where
  "tunWriter e d =
     (case writerIteration e d of
        (Continue, d') \<Rightarrow> tunWriter e d'
      | (r, d') \<Rightarrow> (r, d'))"
  by pat_completeness auto
termination
  by (relation "measure (\<lambda>(e, d). length (toTunCh d))") (auto dest: writerIteration_Continue [OF sym])

declare tunWriter.simps [simp del]

subsection \<open>The goroutines side by side\<close>

text \<open>
  \<^verbatim>\<open>Stop\<close> runs while the pipelines of \<^verbatim>\<open>Run\<close> and the handlers' tasks run. The
  system is a transition relation: each rule is one atomic action of one goroutine,
  and a run interleaves them in any order. \<^verbatim>\<open>stopPC\<close> is the statement \<^verbatim>\<open>Stop\<close>
  has reached, \<^verbatim>\<open>readerPC\<close> the position of the TUN reader in its loop.
  \<^verbatim>\<open>liveAtStop\<close> remembers the handler tasks that were running when \<^verbatim>\<open>Stop\<close> was
  invoked.
\<close>

datatype StopPC =
    StopNotCalled | StopFlagClosing | StopSignalled | StopWaited | StopFlagClosed | StopReturned

datatype ReaderPC =
    ReaderLoop
  | ReaderRead Data
  | ReaderHandle Data
  | ReaderReturned "error option"
  | ReaderPanicked

record System =
  disp :: Dispatcher
  stopPC :: StopPC
  readerPC :: ReaderPC
  writerReturned :: bool
  liveAtStop :: "nat set"

text \<open>
  Modelled from the spec: the handlers' tasks are not among the sources. The spec: the
  completion barrier is "incremented once per handler creation and decremented on
  handler termination", and a handler "must invoke the removal callback exactly once
  on termination, unregistering itself from the Connection Registry".
\<close>

definition handlerDone :: "nat \<Rightarrow> Dispatcher \<Rightarrow> Dispatcher" where
  "handlerDone t d =
     d\<lparr>running := running d - {t},
       handlersWg := handlersWg d - 1,
       handlers := (\<lambda>c. case handlers d c of
                           None \<Rightarrow> None
                         | Some h \<Rightarrow> if instanceOf h = t then None else Some h)\<rparr>"

inductive step :: "Env \<Rightarrow> System \<Rightarrow> System \<Rightarrow> bool" where
  stop_flag_closing:
    "stopPC s = StopNotCalled \<Longrightarrow>
     step e s (s\<lparr>disp := atomic_StoreInt32_closing 1 (disp s), stopPC := StopFlagClosing,
                 liveAtStop := running (disp s)\<rparr>)"
| stop_signal:
    "stopPC s = StopFlagClosing \<Longrightarrow>
     step e s (s\<lparr>disp := handlers_CloseAll (disp s), stopPC := StopSignalled\<rparr>)"
| stop_wait:
    "stopPC s = StopSignalled \<Longrightarrow> handlersWg_Wait (disp s) = Some d' \<Longrightarrow>
     step e s (s\<lparr>disp := d', stopPC := StopWaited\<rparr>)"
| stop_flag_closed:
    "stopPC s = StopWaited \<Longrightarrow>
     step e s (s\<lparr>disp := atomic_StoreInt32_closing 2 (disp s), stopPC := StopFlagClosed\<rparr>)"
| stop_dev_close:
    "stopPC s = StopFlagClosed \<Longrightarrow>
     step e s (s\<lparr>disp := dev_Close (disp s), stopPC := StopReturned\<rparr>)"
| reader_guard:
    "readerPC s = ReaderLoop \<Longrightarrow> closing (disp s) < 2 \<Longrightarrow>
     step e s (s\<lparr>readerPC := ReaderRead b\<rparr>)"
| reader_exit:
    "readerPC s = ReaderLoop \<Longrightarrow> \<not> closing (disp s) < 2 \<Longrightarrow>
     step e s (s\<lparr>readerPC := ReaderReturned None\<rparr>)"
| reader_read_nothing:
    "readerPC s = ReaderRead b \<Longrightarrow> step e s s"
| reader_read_error:
    "readerPC s = ReaderRead b \<Longrightarrow>
     step e s (s\<lparr>disp := DataPool_Put b (disp s),
                 readerPC := ReaderReturned
                   (if ctxDone e \<or> closing (disp s) = 2 then None
                    else Some (ExternalError ''read packet error''))\<rparr>)"
| reader_read_packet:
    "readerPC s = ReaderRead b \<Longrightarrow> bufId data = bufId b \<Longrightarrow>
     step e s (s\<lparr>readerPC := ReaderHandle data\<rparr>)"
| reader_handle:
    "readerPC s = ReaderHandle data \<Longrightarrow> handlePacket e data (disp s) = Inr d' \<Longrightarrow>
     step e s (s\<lparr>disp := d', readerPC := ReaderLoop\<rparr>)"
| reader_panic:
    "readerPC s = ReaderHandle data \<Longrightarrow> handlePacket e data (disp s) = Inl p \<Longrightarrow>
     step e s (s\<lparr>readerPC := ReaderPanicked\<rparr>)"
| writer_iteration:
    "\<not> writerReturned s \<Longrightarrow> writerIteration e (disp s) = (r, d') \<Longrightarrow>
     step e s (s\<lparr>disp := d', writerReturned := (case r of Return err \<Rightarrow> True | _ \<Rightarrow> False)\<rparr>)"
| handler_done:
    "t \<in> running (disp s) \<Longrightarrow>
     step e s (s\<lparr>disp := handlerDone t (disp s)\<rparr>)"
| handler_send:
    "step e s (s\<lparr>disp := send (HandlerPacket n) (disp s)\<rparr>)"

text \<open>
  A run starts with \<^verbatim>\<open>Stop\<close> not yet called, the flag \<^verbatim>\<open>running\<close> (0), the device
  open and no handler; the configuration and the queues are arbitrary.
\<close>

definition initial :: "System \<Rightarrow> bool" where
  "initial s \<longleftrightarrow>
     stopPC s = StopNotCalled \<and> readerPC s = ReaderLoop \<and> \<not> writerReturned s
     \<and> closing (disp s) = 0 \<and> \<not> devClosed (disp s)
     \<and> handlers (disp s) = Map.empty \<and> handlersWg (disp s) = 0
     \<and> running (disp s) = {} \<and> created (disp s) = 0 \<and> liveAtStop s = {}"

inductive run :: "System \<Rightarrow> System \<Rightarrow> bool" where
  run_refl: "run s s"
| run_step: "run s s1 \<Longrightarrow> step e s1 s2 \<Longrightarrow> run s s2"

definition reachable :: "System \<Rightarrow> bool" where
  "reachable s \<longleftrightarrow> (\<exists>s0. initial s0 \<and> run s0 s)"

subsection \<open>NewDispatcher and sample inputs\<close>

definition NewDispatcher :: Dispatcher where
  "NewDispatcher =
     \<lparr>devClosed = False, devWritten = [], managerClient = None, connStream = None,
      handlers = Map.empty, handlersWg = 0, toTunCh = [], fragmentMap = Map.empty,
      dnsIP = [], dnsPort = 0, closing = 0, dlog = [], poolPut = [], softReleased = [],
      delivered = [], created = 0, running = {}, closeSignalled = {}, factoryCalls = [],
      dials = []\<rparr>"

text \<open>
  Modelled from the spec: \<^verbatim>\<open>ConcatFragments\<close> is not among the sources. The spec:
  "keep fragments keyed by fragmentation ID; on each new fragment, append/merge into
  the buffered set; when the fragment with offset 0 and no more-fragments flag
  following it completes a contiguous byte range from offset 0 to the total length,
  return the reassembled packet and remove the set entry; otherwise return not yet
  complete". Only the sample environment uses it: the general theorems hold for any
  reassembler.
\<close>

fun contiguous :: "int \<Rightarrow> Header list \<Rightarrow> bool" where
  "contiguous off [] = False"
| "contiguous off [h] = (FragmentOffset h = off \<and> (Flags h) AND ipv4_MoreFragments = 0)"
| "contiguous off (h # hs) = (FragmentOffset h = off \<and> contiguous (off + PayloadLen h) hs)"

definition fragHeaders :: "Data list \<Rightarrow> Header list" where
  "fragHeaders frags =
     sort_key FragmentOffset
       (concat (map (\<lambda>b. case ParseHeader b of Inl err \<Rightarrow> [] | Inr h \<Rightarrow> [h]) frags))"

definition sampleConcatFragments ::
  "Header \<Rightarrow> Data \<Rightarrow> (16 word \<rightharpoonup> Data list) \<Rightarrow> Data option \<times> (16 word \<rightharpoonup> Data list)" where
  "sampleConcatFragments h data fm =
     (let frags = (case fm (ID h) of None \<Rightarrow> [] | Some fs \<Rightarrow> fs) @ [data]
      in if contiguous 0 (fragHeaders frags) then
           (case filter (\<lambda>b. case ParseHeader b of Inl err \<Rightarrow> False
                                   | Inr f \<Rightarrow> FragmentOffset f = 0) frags of
              [] \<Rightarrow> (None, fm(ID h \<mapsto> frags))
            | first # rest \<Rightarrow>
                (case ParseHeader first of
                   Inl err \<Rightarrow> (None, fm(ID h \<mapsto> frags))
                 | Inr f \<Rightarrow>
                     (Some (first\<lparr>ParseHeader :=
                              Inr (f\<lparr>PayloadLen := sum_list (map PayloadLen (fragHeaders frags)),
                                     Flags := 0\<rparr>)\<rparr>),
                      fm(ID h := None))))
         else (None, fm(ID h \<mapsto> frags)))"

definition sampleEnv :: Env where
  "sampleEnv =
     \<lparr>MTU = 1500, ctxDone = False, selectPick = CaseOther,
      ConcatFragments = sampleConcatFragments, NewDnsInterceptorErr = None,
      devWriteErr = (\<lambda>p. None), DialContext = (\<lambda>port. Inr 1),
      CheckTimeout = (\<lambda>err. err)\<rparr>"

definition sampleHeader :: "int \<Rightarrow> IP \<Rightarrow> Header" where
  "sampleHeader proto dst =
     \<lparr>Version = 4, HeaderLen = 20, PayloadLen = 40, L4Protocol = proto,
      Source = [10, 0, 0, 1], Destination = dst, Flags = 0, FragmentOffset = 0, ID = 7\<rparr>"

definition sampleData :: "Header \<Rightarrow> 16 word \<Rightarrow> 16 word \<Rightarrow> bool \<Rightarrow> bool \<Rightarrow> Data" where
  "sampleData h sp dp syn rst =
     \<lparr>bufId = 1, ParseHeader = Inr h,
      l4Header = \<lparr>SourcePort = sp, DestinationPort = dp, SYN = syn, RST = rst\<rparr>\<rparr>"

definition initialSystem :: System where
  "initialSystem =
     \<lparr>disp = NewDispatcher, stopPC = StopNotCalled, readerPC = ReaderLoop,
      writerReturned = False, liveAtStop = {}\<rparr>"


definition tcpData :: "bool \<Rightarrow> bool \<Rightarrow> Data" where
  "tcpData syn rst = sampleData (sampleHeader 6 [10, 1, 2, 3]) 1000 80 syn rst"

definition tcpPacket :: "bool \<Rightarrow> bool \<Rightarrow> TCPPacket" where
  "tcpPacket syn rst = PacketFromData (sampleHeader 6 [10, 1, 2, 3]) (tcpData syn rst)"

definition udpData :: "IP \<Rightarrow> 16 word \<Rightarrow> Data" where
  "udpData dst dp = sampleData (sampleHeader 17 dst) 1000 dp False False"

definition cancelledEnv :: Env where
  "cancelledEnv = sampleEnv\<lparr>ctxDone := True, selectPick := CaseDone\<rparr>"

definition otherData :: "int \<Rightarrow> Data" where
  "otherData proto = sampleData (sampleHeader proto [10, 1, 2, 3]) 0 0 False False"


subsection \<open>Notions used in the properties\<close>

text \<open>
  The buffer goes on to \<^verbatim>\<open>d.tcp\<close> or \<^verbatim>\<open>d.udp\<close>: the protocol is TCP, or it is UDP
  and none of the three UDP guards stops the datagram.
\<close>

definition passedOn :: "Header \<Rightarrow> Data \<Rightarrow> bool" where
  "passedOn ipHdr data \<longleftrightarrow>
     L4Protocol ipHdr = IPPROTO_TCP
     \<or> (L4Protocol ipHdr = IPPROTO_UDP
         \<and> \<not> IsLinkLocalUnicast (Destination ipHdr)
         \<and> \<not> IsLinkLocalMulticast (Destination ipHdr)
         \<and> \<not> subnetZero (Destination ipHdr)
         \<and> \<not> blocked (SourcePort (l4Header data))
         \<and> \<not> blocked (DestinationPort (l4Header data)))"

definition firstFragment :: Data where
  "firstFragment =
     sampleData ((sampleHeader 6 [10, 1, 2, 3])\<lparr>Flags := 1\<rparr>) 1000 80 True False"

definition failingEnv :: Env where
  "failingEnv = sampleEnv\<lparr>devWriteErr := (\<lambda>p. Some (ExternalError ''write failed''))\<rparr>"

definition twoQueued :: Dispatcher where
  "twoQueued = NewDispatcher\<lparr>toTunCh := [HandlerPacket 1, HandlerPacket 2]\<rparr>"

text \<open>
  Callers racing on one flow identifier: the registry serializes them, so a race is
  the list of their calls in the order the registry takes them. Each caller brings its
  own factory closure.
\<close>

fun Pool_GetAll ::
  "ConnID \<Rightarrow> (Dispatcher \<Rightarrow> (error + Handler) \<times> Dispatcher) list \<Rightarrow> Dispatcher
     \<Rightarrow> (error + Handler) list \<times> Dispatcher" where
  "Pool_GetAll connID [] d = ([], d)"
| "Pool_GetAll connID (f # fs) d =
     (let (r, d1) = Pool_Get connID f d;
          (rs, d2) = Pool_GetAll connID fs d1
      in (r # rs, d2))"

text \<open>
  A factory that yields a handler whenever it is invoked. The registry's map and the
  count of invocations are the pool's own: a factory does not touch them.
\<close>

definition creates :: "(Dispatcher \<Rightarrow> (error + Handler) \<times> Dispatcher) \<Rightarrow> bool" where
  "creates f \<longleftrightarrow>
     (\<forall>d. (\<exists>h. fst (f d) = Inr h)
          \<and> handlers (snd (f d)) = handlers d
          \<and> factoryCalls (snd (f d)) = factoryCalls d)"

definition synFactory :: "Dispatcher \<Rightarrow> (error + Handler) \<times> Dispatcher" where
  "synFactory = tcpFactory sampleEnv (tcpPacket True False) (tcp_connID (tcpPacket True False))"

definition rstFactory :: "Dispatcher \<Rightarrow> (error + Handler) \<times> Dispatcher" where
  "rstFactory = tcpFactory sampleEnv (tcpPacket False True) (tcp_connID (tcpPacket False True))"

text \<open>
  What one call of \<^verbatim>\<open>handlePacket\<close> can do to the handlers: nothing, or create and
  register exactly one, for a flow that had none. It never touches the shutdown flag
  or the device.
\<close>

definition dispatchFrame :: "Dispatcher \<Rightarrow> Dispatcher \<Rightarrow> bool" where
  "dispatchFrame d d' \<longleftrightarrow>
     closing d' = closing d \<and> devClosed d' = devClosed d
     \<and> closeSignalled d' = closeSignalled d
     \<and> ((created d' = created d \<and> running d' = running d \<and> handlers d' = handlers d
          \<and> handlersWg d \<le> handlersWg d')
        \<or> (created d' = Suc (created d) \<and> running d' = insert (created d) (running d)
            \<and> handlersWg d' = handlersWg d + 1
            \<and> (\<exists>c h. handlers d c = None \<and> handlers d' = (handlers d)(c \<mapsto> h)
                     \<and> instanceOf h = created d)))"

definition taskInv :: "nat set \<Rightarrow> Dispatcher \<Rightarrow> bool" where
  "taskInv L d \<longleftrightarrow>
     finite (running d) \<and> int (card (running d)) \<le> handlersWg d
     \<and> (\<forall>t \<in> running d. t < created d) \<and> (\<forall>t \<in> L. t < created d)
     \<and> (\<forall>t \<in> running d. \<exists>c h. handlers d c = Some h \<and> instanceOf h = t)"

definition stopInv :: "System \<Rightarrow> bool" where
  "stopInv s \<longleftrightarrow>
     taskInv (liveAtStop s) (disp s)
     \<and> (case stopPC s of
          StopNotCalled \<Rightarrow> closing (disp s) = 0 \<and> \<not> devClosed (disp s)
        | StopFlagClosing \<Rightarrow> closing (disp s) = 1 \<and> \<not> devClosed (disp s)
        | StopSignalled \<Rightarrow> closing (disp s) = 1 \<and> \<not> devClosed (disp s)
            \<and> liveAtStop s \<inter> running (disp s) \<subseteq> closeSignalled (disp s)
        | StopWaited \<Rightarrow> closing (disp s) = 1 \<and> \<not> devClosed (disp s)
            \<and> liveAtStop s \<inter> running (disp s) = {}
        | StopFlagClosed \<Rightarrow> closing (disp s) = 2 \<and> \<not> devClosed (disp s)
            \<and> liveAtStop s \<inter> running (disp s) = {}
        | StopReturned \<Rightarrow> closing (disp s) = 2 \<and> devClosed (disp s)
            \<and> liveAtStop s \<inter> running (disp s) = {})"

text \<open>The reader stands at its loop guard, or has returned.\<close>

definition readerAtGuard :: "System \<Rightarrow> bool" where
  "readerAtGuard s \<longleftrightarrow>
     (case readerPC s of ReaderLoop \<Rightarrow> True | ReaderReturned r \<Rightarrow> True | _ \<Rightarrow> False)"

definition synConnID :: ConnID where
  "synConnID = tcp_connID (tcpPacket True False)"

text \<open>The dispatcher after a SYN packet for a new flow has been dispatched.\<close>

definition oneHandler :: Dispatcher where
  "oneHandler =
     NewDispatcher\<lparr>handlers := [synConnID \<mapsto> TCPHandler 0 synConnID],
       handlersWg := 1,
       dlog := [DebugFromTunTCP (tcpPacket True False)],
       delivered := [HandlePacket (TCPHandler 0 synConnID) (tcpPacket True False)],
       created := 1, running := {0}, factoryCalls := [synConnID]\<rparr>"

text \<open>
  A run in which a handler is live when \<^verbatim>\<open>Stop\<close> is invoked, is signalled, finishes,
  and only then \<^verbatim>\<open>Stop\<close> goes on to close the device.
\<close>

definition stoppedSystem :: System where
  "stoppedSystem =
     \<lparr>disp = dev_Close (atomic_StoreInt32_closing 2
               (handlerDone 0 (handlers_CloseAll (atomic_StoreInt32_closing 1 oneHandler)))),
      stopPC = StopReturned, readerPC = ReaderLoop, writerReturned = False,
      liveAtStop = {0}\<rparr>"

text \<open>A run in which the SYN packet is dispatched after \<^verbatim>\<open>Stop\<close> has set the flag.\<close>

definition lateHandlerSystem :: System where
  "lateHandlerSystem =
     \<lparr>disp = oneHandler\<lparr>closing := 1\<rparr>, stopPC = StopFlagClosing, readerPC = ReaderLoop,
      writerReturned = False, liveAtStop = {}\<rparr>"

section \<open>Properties\<close>

lemmas hp_defs = handlePacket_def switchL4_def deferred_def unreachable_def
  send_def DataPool_Put_def dlog_write_def

lemmas sample_defs = sampleData_def sampleHeader_def sampleEnv_def NewDispatcher_def uint16_def


lemma reassembled_frame:
  "reassembled e h data d = (r, d1) \<Longrightarrow> d1 = d\<lparr>fragmentMap := fragmentMap d1\<rparr>"
  by (auto simp: reassembled_def split: if_splits prod.splits)

subsection \<open>Oversized packets\<close>



lemmas tcp_defs = tcp_def Pool_Get_def tcpFactory_def tcp_NewHandler_def newInstance_def
  handlersWg_Add_def send_def dlog_write_def Let_def

lemmas sample2_defs = tcpData_def tcpPacket_def udpData_def cancelledEnv_def

lemmas frag_defs = reassembled_def isFragment_def ipv4_Version_def ipv4_MoreFragments_def


subsection \<open>The UDP deny-list\<close>




subsection \<open>TCP packets for a flow without a handler\<close>

text \<open>
  C5. A TCP packet with RST set, for a flow identifier with no entry in the registry,
  makes \<^verbatim>\<open>tcp\<close> return normally (no panic) with the registry unchanged: the factory
  is invoked and fails, the error is logged, the packet is handed to no handler and
  nothing is queued.
\<close>

theorem tcp_RST_unknown_flow:
  assumes "RST (tcp_Header pkt)"
    and "handlers d (tcp_connID pkt) = None"
  shows "tcp e pkt d =
           Inr (d\<lparr>dlog := dlog d @
                    [DebugFromTunTCP pkt,
                     ErrorErr (ErrorsNew ''dispatching got RST without connection workflow'')],
                  factoryCalls := factoryCalls d @ [tcp_connID pkt]\<rparr>)"
  using assms by (simp add: tcp_defs)

theorem tcp_RST_unknown_flow_witness:
  "RST (tcp_Header (tcpPacket False True))
   \<and> handlers NewDispatcher (tcp_connID (tcpPacket False True)) = None
   \<and> tcp sampleEnv (tcpPacket False True) NewDispatcher =
       Inr (NewDispatcher\<lparr>dlog :=
              [DebugFromTunTCP (tcpPacket False True),
               ErrorErr (ErrorsNew ''dispatching got RST without connection workflow'')],
            factoryCalls := [tcp_connID (tcpPacket False True)]\<rparr>)"
  using tcp_RST_unknown_flow [of "tcpPacket False True" NewDispatcher sampleEnv]
  by (simp add: sample2_defs sample_defs)





subsection \<open>UDP destinations\<close>





subsection \<open>ICMP and unknown protocols\<close>




subsection \<open>SetManagerInfo\<close>

text \<open>
  C10. \<^verbatim>\<open>SetManagerInfo\<close> dials only when no manager client is set. Once a call has
  dialled successfully the client is set, and every later call, whatever its
  surroundings and arguments, dials nothing, leaves the dispatcher as it is and
  returns nil.
\<close>

theorem SetManagerInfo_idempotent:
  "(managerClient d \<noteq> None \<longrightarrow> SetManagerInfo e mi d = (None, d))
   \<and> (dials (snd (SetManagerInfo e mi d)) \<noteq> dials d \<longrightarrow> managerClient d = None)
   \<and> (managerClient d = None \<and> DialContext e (GrpcPort mi) = Inr conn \<longrightarrow>
        SetManagerInfo e mi d
          = (None, d\<lparr>managerClient := Some conn, dials := dials d @ [GrpcPort mi]\<rparr>)
        \<and> SetManagerInfos calls
            (d\<lparr>managerClient := Some conn, dials := dials d @ [GrpcPort mi]\<rparr>)
          = (replicate (length calls) None,
             d\<lparr>managerClient := Some conn, dials := dials d @ [GrpcPort mi]\<rparr>))"
proof -
  have later: "managerClient d' \<noteq> None \<Longrightarrow>
      SetManagerInfos calls d' = (replicate (length calls) None, d')" for d'
    by (induction calls) (auto simp: SetManagerInfo_def)
  show ?thesis
    by (auto simp: SetManagerInfo_def later)
qed

theorem SetManagerInfo_idempotent_witness:
  "SetManagerInfo sampleEnv \<lparr>GrpcPort = 8081\<rparr> NewDispatcher
     = (None, NewDispatcher\<lparr>managerClient := Some 1, dials := [8081]\<rparr>)
   \<and> SetManagerInfos [(sampleEnv, \<lparr>GrpcPort = 8081\<rparr>), (sampleEnv, \<lparr>GrpcPort = 9000\<rparr>)]
        (NewDispatcher\<lparr>managerClient := Some 1, dials := [8081]\<rparr>)
     = ([None, None], NewDispatcher\<lparr>managerClient := Some 1, dials := [8081]\<rparr>)
   \<and> SetManagerInfo sampleEnv \<lparr>GrpcPort = 9000\<rparr>
        (NewDispatcher\<lparr>managerClient := Some 1, dials := [8081]\<rparr>)
     = (None, NewDispatcher\<lparr>managerClient := Some 1, dials := [8081]\<rparr>)"
  using SetManagerInfo_idempotent [of NewDispatcher sampleEnv "\<lparr>GrpcPort = 8081\<rparr>" 1
      "[(sampleEnv, \<lparr>GrpcPort = 8081\<rparr>), (sampleEnv, \<lparr>GrpcPort = 9000\<rparr>)]"]
    SetManagerInfo_idempotent [of "NewDispatcher\<lparr>managerClient := Some 1, dials := [8081]\<rparr>"
      sampleEnv "\<lparr>GrpcPort = 9000\<rparr>" 1 "[]"]
  by (simp add: sample_defs del: SetManagerInfos.simps)

subsection \<open>Who holds the buffer\<close>

lemmas udp_defs = udp_def Pool_Get_def udpFactory_def udp_NewHandler_def
  udp_NewDnsInterceptor_def newInstance_def handlersWg_Add_def dlog_write_def Let_def

lemma tcp_poolPut: "tcp e pkt d = Inr d' \<Longrightarrow> poolPut d' = poolPut d"
  by (auto simp: tcp_defs split: option.splits if_splits Handler.splits)

lemma udp_poolPut: "udp e dg d = Inr d' \<Longrightarrow> poolPut d' = poolPut d"
  by (auto simp: udp_defs split: option.splits if_splits Handler.splits prod.splits sum.splits)

lemma switchL4_poolPut:
  assumes "switchL4 e ipHdr data d = Inr d'"
  shows "poolPut d' = poolPut d @ (if passedOn ipHdr data then [] else [data])"
proof (cases "passedOn ipHdr data")
  case True
  then show ?thesis
    using assms
    by (auto simp: passedOn_def switchL4_def deferred_def proto_defs Let_def
        dest: tcp_poolPut udp_poolPut split: sum.splits)
next
  case False
  then show ?thesis
    using assms
    by (auto simp: passedOn_def hp_defs proto_defs Let_def split: if_splits)
qed

lemma writerIteration_dequeues:
  assumes "writerIteration e d = (r, d')"
  shows "\<exists>X. toTunCh d = X @ toTunCh d' \<and> softReleased d' = softReleased d @ X
            \<and> devWritten d' = devWritten d @ X"
  using assms
  by (auto simp: writerIteration_def dev_Write_def pkt_SoftRelease_def dlog_write_def Let_def
      split: if_splits list.splits option.splits)

lemma tunWriter_dequeues:
  "tunWriter e d = (r, d') \<Longrightarrow>
     \<exists>X. toTunCh d = X @ toTunCh d' \<and> softReleased d' = softReleased d @ X
        \<and> devWritten d' = devWritten d @ X"
proof (induction e d arbitrary: r d' rule: tunWriter.induct)
  case (1 e d)
  obtain r1 d1 where it: "writerIteration e d = (r1, d1)"
    by (cases "writerIteration e d")
  from writerIteration_dequeues [OF it] obtain X where
    X: "toTunCh d = X @ toTunCh d1" "softReleased d1 = softReleased d @ X"
       "devWritten d1 = devWritten d @ X"
    by blast
  show ?case
  proof (cases "r1 = Continue")
    case True
    with it "1.prems" have "tunWriter e d1 = (r, d')"
      by (simp add: tunWriter.simps [of e d])
    from "1.IH" [OF it [symmetric] True this] obtain Y where
      "toTunCh d1 = Y @ toTunCh d'" "softReleased d' = softReleased d1 @ Y"
      "devWritten d' = devWritten d1 @ Y"
      by blast
    with X show ?thesis
      by (intro exI [of _ "X @ Y"]) simp
  next
    case False
    with it "1.prems" have "d' = d1"
      by (cases r1) (simp_all add: tunWriter.simps [of e d])
    with X show ?thesis by blast
  qed
qed


lemma firstFragment_held:
  "handlePacket sampleEnv firstFragment NewDispatcher =
     Inr (NewDispatcher\<lparr>fragmentMap := [7 \<mapsto> [firstFragment]]\<rparr>)"
  by (simp add: hp_defs firstFragment_def sample_defs frag_defs sampleConcatFragments_def
      fragHeaders_def)

lemma tunWriter_twoQueued:
  "tunWriter sampleEnv twoQueued =
     (Parked, NewDispatcher\<lparr>devWritten := [HandlerPacket 1, HandlerPacket 2],
                dlog := [DebugToTun (HandlerPacket 1), DebugToTun (HandlerPacket 2)],
                softReleased := [HandlerPacket 1, HandlerPacket 2]\<rparr>)"
  by (simp add: tunWriter.simps writerIteration_def dev_Write_def pkt_SoftRelease_def
      dlog_write_def twoQueued_def sample_defs)

text \<open>
  C9, as amended. The claim as stated fails where \<^verbatim>\<open>handlePacket\<close> leaves a fragment
  with the reassembler: the buffer is neither put back nor handed to a handler (the
  counterexample below). What holds: \<^verbatim>\<open>handlePacket\<close> puts the buffer it holds back
  into the pool exactly once on every path on which it neither leaves the fragment
  with the reassembler nor passes the buffer on to \<^verbatim>\<open>d.tcp\<close> or \<^verbatim>\<open>d.udp\<close>, and on
  those paths it puts nothing back; the writer dequeues a packet, hands it to the
  device and releases it, whether the write fails or not, so that the packets taken
  from the queue, the packets written and the packets released are the same list.
\<close>

theorem buffer_ownership:
  "(handlePacket e data d = Inr d' \<longrightarrow>
      poolPut d' = poolPut d @
        (case ParseHeader data of
           Inl err \<Rightarrow> [data]
         | Inr ipHdr \<Rightarrow>
             if PayloadLen ipHdr > MTU e - HeaderLen ipHdr then [data]
             else (case fst (reassembled e ipHdr data d) of
                     None \<Rightarrow> []
                   | Some data1 \<Rightarrow> if passedOn ipHdr data1 then [] else [data1])))
   \<and> (closing d < 2 \<and> \<not> (ctxDone e \<and> selectPick e = CaseDone) \<and> toTunCh d = pkt # rest \<longrightarrow>
        toTunCh (snd (writerIteration e d)) = rest
        \<and> devWritten (snd (writerIteration e d)) = devWritten d @ [pkt]
        \<and> softReleased (snd (writerIteration e d)) = softReleased d @ [pkt])
   \<and> (tunWriter e d = (r, d'') \<longrightarrow>
        (\<exists>X. toTunCh d = X @ toTunCh d'' \<and> devWritten d'' = devWritten d @ X
            \<and> softReleased d'' = softReleased d @ X))"
proof (intro conjI impI)
  assume hp: "handlePacket e data d = Inr d'"
  show "poolPut d' = poolPut d @
        (case ParseHeader data of
           Inl err \<Rightarrow> [data]
         | Inr ipHdr \<Rightarrow>
             if PayloadLen ipHdr > MTU e - HeaderLen ipHdr then [data]
             else (case fst (reassembled e ipHdr data d) of
                     None \<Rightarrow> []
                   | Some data1 \<Rightarrow> if passedOn ipHdr data1 then [] else [data1]))"
  proof (cases "ParseHeader data")
    case (Inl err)
    with hp show ?thesis by (auto simp: hp_defs)
  next
    case (Inr ipHdr)
    show ?thesis
    proof (cases "PayloadLen ipHdr > MTU e - HeaderLen ipHdr")
      case True
      with hp Inr show ?thesis by (auto simp: hp_defs)
    next
      case False
      obtain r1 d1 where re: "reassembled e ipHdr data d = (r1, d1)"
        by (cases "reassembled e ipHdr data d")
      have pp: "poolPut d1 = poolPut d"
        using re by (auto simp: reassembled_def split: if_splits prod.splits)
      show ?thesis
      proof (cases r1)
        case None
        with hp Inr False re pp show ?thesis
          by (auto simp: handlePacket_def deferred_def)
      next
        case (Some data1)
        with hp Inr False re have "switchL4 e ipHdr data1 d1 = Inr d'"
          by (simp add: handlePacket_def)
        from switchL4_poolPut [OF this] Inr False re Some pp show ?thesis
          by simp
      qed
    qed
  qed
next
  assume "closing d < 2 \<and> \<not> (ctxDone e \<and> selectPick e = CaseDone) \<and> toTunCh d = pkt # rest"
  then show "toTunCh (snd (writerIteration e d)) = rest"
    and "devWritten (snd (writerIteration e d)) = devWritten d @ [pkt]"
    and "softReleased (snd (writerIteration e d)) = softReleased d @ [pkt]"
    by (auto simp: writerIteration_def dev_Write_def pkt_SoftRelease_def dlog_write_def Let_def
        split: option.splits)
next
  assume "tunWriter e d = (r, d'')"
  from tunWriter_dequeues [OF this]
  show "\<exists>X. toTunCh d = X @ toTunCh d'' \<and> devWritten d'' = devWritten d @ X
            \<and> softReleased d'' = softReleased d @ X"
    by blast
qed

theorem buffer_ownership_witness:
  "handlePacket sampleEnv (otherData 47) NewDispatcher =
     Inr (NewDispatcher\<lparr>toTunCh :=
            [DestinationUnreachablePacket 1500 (sampleHeader 47 [10, 1, 2, 3]) ProtocolUnreachable],
          poolPut := [otherData 47]\<rparr>)
   \<and> poolPut (NewDispatcher\<lparr>toTunCh :=
            [DestinationUnreachablePacket 1500 (sampleHeader 47 [10, 1, 2, 3]) ProtocolUnreachable],
          poolPut := [otherData 47]\<rparr>) = [otherData 47]
   \<and> closing twoQueued < 2 \<and> toTunCh twoQueued = [HandlerPacket 1, HandlerPacket 2]
   \<and> devWriteErr failingEnv (HandlerPacket 1) = Some (ExternalError ''write failed'')
   \<and> toTunCh (snd (writerIteration failingEnv twoQueued)) = [HandlerPacket 2]
   \<and> devWritten (snd (writerIteration failingEnv twoQueued)) = [HandlerPacket 1]
   \<and> softReleased (snd (writerIteration failingEnv twoQueued)) = [HandlerPacket 1]
   \<and> tunWriter sampleEnv twoQueued =
       (Parked, NewDispatcher\<lparr>devWritten := [HandlerPacket 1, HandlerPacket 2],
                  dlog := [DebugToTun (HandlerPacket 1), DebugToTun (HandlerPacket 2)],
                  softReleased := [HandlerPacket 1, HandlerPacket 2]\<rparr>)"
proof -
  have hp: "handlePacket sampleEnv (otherData 47) NewDispatcher =
     Inr (NewDispatcher\<lparr>toTunCh :=
            [DestinationUnreachablePacket 1500 (sampleHeader 47 [10, 1, 2, 3]) ProtocolUnreachable],
          poolPut := [otherData 47]\<rparr>)"
    by (simp add: hp_defs otherData_def sample_defs proto_defs frag_defs)
  have q: "closing twoQueued < 2 \<and> \<not> (ctxDone failingEnv \<and> selectPick failingEnv = CaseDone)
           \<and> toTunCh twoQueued = [HandlerPacket 1, HandlerPacket 2]"
    by (simp add: twoQueued_def failingEnv_def sample_defs)
  have w: "devWriteErr failingEnv (HandlerPacket 1) = Some (ExternalError ''write failed'')"
    by (simp add: failingEnv_def)
  have sr: "softReleased twoQueued = []" "devWritten twoQueued = []"
    by (simp_all add: twoQueued_def sample_defs)
  from buffer_ownership [where e = sampleEnv and data = "otherData 47" and d = NewDispatcher
      and d' = "NewDispatcher\<lparr>toTunCh :=
            [DestinationUnreachablePacket 1500 (sampleHeader 47 [10, 1, 2, 3]) ProtocolUnreachable],
          poolPut := [otherData 47]\<rparr>"] hp
  have "poolPut (NewDispatcher\<lparr>toTunCh :=
            [DestinationUnreachablePacket 1500 (sampleHeader 47 [10, 1, 2, 3]) ProtocolUnreachable],
          poolPut := [otherData 47]\<rparr>) = [otherData 47]"
    by (simp add: NewDispatcher_def)
  moreover from buffer_ownership [where e = failingEnv and d = twoQueued
      and pkt = "HandlerPacket 1" and rest = "[HandlerPacket 2]"] q sr
  have "toTunCh (snd (writerIteration failingEnv twoQueued)) = [HandlerPacket 2]
      \<and> devWritten (snd (writerIteration failingEnv twoQueued)) = [HandlerPacket 1]
      \<and> softReleased (snd (writerIteration failingEnv twoQueued)) = [HandlerPacket 1]"
    by simp
  ultimately show ?thesis
    using hp q w tunWriter_twoQueued by simp
qed

text \<open>
  The first fragment of a TCP packet stays with the reassembler: nothing is put back
  and nothing is delivered. A TCP packet with RST for an unknown flow is passed to
  \<^verbatim>\<open>d.tcp\<close>, which logs the error and returns: nothing is put back, nothing is delivered.
\<close>

theorem buffer_ownership_counterexample:
  "handlePacket sampleEnv firstFragment NewDispatcher =
     Inr (NewDispatcher\<lparr>fragmentMap := [7 \<mapsto> [firstFragment]]\<rparr>)
   \<and> poolPut (NewDispatcher\<lparr>fragmentMap := [7 \<mapsto> [firstFragment]]\<rparr>) = []
   \<and> delivered (NewDispatcher\<lparr>fragmentMap := [7 \<mapsto> [firstFragment]]\<rparr>) = []
   \<and> handlePacket sampleEnv (tcpData False True) NewDispatcher =
       Inr (NewDispatcher\<lparr>dlog :=
              [DebugFromTunTCP (tcpPacket False True),
               ErrorErr (ErrorsNew ''dispatching got RST without connection workflow'')],
            factoryCalls := [tcp_connID (tcpPacket False True)]\<rparr>)
   \<and> poolPut (NewDispatcher\<lparr>dlog :=
              [DebugFromTunTCP (tcpPacket False True),
               ErrorErr (ErrorsNew ''dispatching got RST without connection workflow'')],
            factoryCalls := [tcp_connID (tcpPacket False True)]\<rparr>) = []
   \<and> delivered (NewDispatcher\<lparr>dlog :=
              [DebugFromTunTCP (tcpPacket False True),
               ErrorErr (ErrorsNew ''dispatching got RST without connection workflow'')],
            factoryCalls := [tcp_connID (tcpPacket False True)]\<rparr>) = []"
  by (simp add: hp_defs tcp_defs firstFragment_def sample_defs sample2_defs frag_defs proto_defs
      sampleConcatFragments_def fragHeaders_def tcp_connID_def)

subsection \<open>Single-flight creation\<close>

lemma Pool_GetAll_present:
  "handlers d connID = Some h \<Longrightarrow>
     Pool_GetAll connID fs d = (replicate (length fs) (Inr h), d)"
  by (induction fs) (auto simp: Pool_Get_def)

lemma Pool_Get_creates:
  assumes "creates f" and "handlers d connID = None"
  shows "\<exists>h d1. Pool_Get connID f d = (Inr h, d1) \<and> handlers d1 = (handlers d)(connID \<mapsto> h)
           \<and> factoryCalls d1 = factoryCalls d @ [connID]"
proof -
  let ?d0 = "d\<lparr>factoryCalls := factoryCalls d @ [connID]\<rparr>"
  from assms(1) obtain h where h: "fst (f ?d0) = Inr h"
    and k: "handlers (snd (f ?d0)) = handlers ?d0"
           "factoryCalls (snd (f ?d0)) = factoryCalls ?d0"
    unfolding creates_def by blast
  then show ?thesis
    using assms(2) by (cases "f ?d0") (auto simp: Pool_Get_def)
qed

lemma creates_synFactory: "creates synFactory"
  by (simp add: creates_def synFactory_def tcpFactory_def tcp_NewHandler_def newInstance_def
      handlersWg_Add_def sample2_defs sample_defs)

text \<open>
  C2, as amended. With factories that yield a handler, calls of get-or-create for one
  flow identifier that race while the registry has no entry for it, taken in any
  order, invoke a factory exactly once, and every caller receives the same handler
  instance, which is the one registered. A factory that fails registers nothing, so
  the next caller invokes its factory again (the counterexample below).
\<close>

theorem single_flight:
  assumes "handlers d connID = None" and "fs \<noteq> []" and "\<forall>f \<in> set fs. creates f"
  shows "\<exists>h. fst (Pool_GetAll connID fs d) = replicate (length fs) (Inr h)
            \<and> handlers (snd (Pool_GetAll connID fs d)) = (handlers d)(connID \<mapsto> h)
            \<and> factoryCalls (snd (Pool_GetAll connID fs d)) = factoryCalls d @ [connID]"
proof -
  from assms(2) obtain f rest where fs: "fs = f # rest"
    by (cases fs) auto
  with assms(3) have "creates f" by simp
  from Pool_Get_creates [OF this assms(1)] obtain h d1 where
    g: "Pool_Get connID f d = (Inr h, d1)" "handlers d1 = (handlers d)(connID \<mapsto> h)"
       "factoryCalls d1 = factoryCalls d @ [connID]"
    by blast
  then have "handlers d1 connID = Some h" by simp
  from Pool_GetAll_present [OF this, of rest] g fs show ?thesis
    by (intro exI [of _ h]) simp
qed

theorem single_flight_witness:
  "handlers NewDispatcher (tcp_connID (tcpPacket True False)) = None
   \<and> fst (Pool_GetAll (tcp_connID (tcpPacket True False))
            [synFactory, synFactory, synFactory] NewDispatcher)
       = [Inr (TCPHandler 0 (tcp_connID (tcpPacket True False))),
          Inr (TCPHandler 0 (tcp_connID (tcpPacket True False))),
          Inr (TCPHandler 0 (tcp_connID (tcpPacket True False)))]
   \<and> factoryCalls (snd (Pool_GetAll (tcp_connID (tcpPacket True False))
            [synFactory, synFactory, synFactory] NewDispatcher))
       = [tcp_connID (tcpPacket True False)]"
proof -
  have n: "handlers NewDispatcher (tcp_connID (tcpPacket True False)) = None"
    by (simp add: NewDispatcher_def)
  have c: "\<forall>f \<in> set [synFactory, synFactory, synFactory]. creates f"
    by (simp add: creates_synFactory)
  have ev: "Pool_GetAll (tcp_connID (tcpPacket True False))
              [synFactory, synFactory, synFactory] NewDispatcher
            = ([Inr (TCPHandler 0 (tcp_connID (tcpPacket True False))),
                Inr (TCPHandler 0 (tcp_connID (tcpPacket True False))),
                Inr (TCPHandler 0 (tcp_connID (tcpPacket True False)))],
               NewDispatcher\<lparr>handlers := [tcp_connID (tcpPacket True False) \<mapsto>
                                TCPHandler 0 (tcp_connID (tcpPacket True False))],
                 handlersWg := 1, created := 1, running := {0},
                 factoryCalls := [tcp_connID (tcpPacket True False)]\<rparr>)"
    by (simp add: Pool_Get_def synFactory_def tcpFactory_def tcp_NewHandler_def
        newInstance_def handlersWg_Add_def sample2_defs sample_defs)
  from single_flight [OF n _ c] n ev show ?thesis
    by simp
qed

text \<open>
  Two callers bring the factory of \<^verbatim>\<open>tcp\<close> for a packet with RST: it is invoked
  twice, and both callers receive its error.
\<close>

theorem single_flight_failing_factory_counterexample:
  "handlers NewDispatcher (tcp_connID (tcpPacket False True)) = None
   \<and> Pool_GetAll (tcp_connID (tcpPacket False True)) [rstFactory, rstFactory] NewDispatcher
       = ([Inl (ErrorsNew ''dispatching got RST without connection workflow''),
           Inl (ErrorsNew ''dispatching got RST without connection workflow'')],
          NewDispatcher\<lparr>factoryCalls :=
            [tcp_connID (tcpPacket False True), tcp_connID (tcpPacket False True)]\<rparr>)"
  by (simp add: Pool_Get_def rstFactory_def tcpFactory_def sample2_defs sample_defs)

subsection \<open>Shutdown\<close>

lemma dispatchFrameI_same:
  "closing d' = closing d \<Longrightarrow> devClosed d' = devClosed d \<Longrightarrow>
   closeSignalled d' = closeSignalled d \<Longrightarrow> created d' = created d \<Longrightarrow>
   running d' = running d \<Longrightarrow> handlers d' = handlers d \<Longrightarrow>
   handlersWg d \<le> handlersWg d' \<Longrightarrow> dispatchFrame d d'"
  by (simp add: dispatchFrame_def)

lemma dispatchFrameI_new:
  "closing d' = closing d \<Longrightarrow> devClosed d' = devClosed d \<Longrightarrow>
   closeSignalled d' = closeSignalled d \<Longrightarrow> created d' = Suc (created d) \<Longrightarrow>
   running d' = insert (created d) (running d) \<Longrightarrow> handlersWg d' = handlersWg d + 1 \<Longrightarrow>
   handlers d c = None \<Longrightarrow> handlers d' = (handlers d)(c \<mapsto> h) \<Longrightarrow>
   instanceOf h = created d \<Longrightarrow> dispatchFrame d d'"
  unfolding dispatchFrame_def by blast

lemma tcp_frame:
  assumes "tcp e pkt d = Inr d'"
  shows "dispatchFrame d d'"
proof (cases "handlers d (tcp_connID pkt)")
  case (Some h)
  with assms show ?thesis
    by (auto simp: tcp_defs split: Handler.splits intro!: dispatchFrameI_same)
next
  case None
  show ?thesis
  proof (cases "RST (tcp_Header pkt) \<or> (\<not> SYN (tcp_Header pkt) \<and> ctxDone e
                  \<and> selectPick e = CaseDone)")
    case True
    with assms None show ?thesis
      by (auto simp: tcp_defs dispatchFrame_def split: if_splits)
  next
    case False
    with assms None show ?thesis
      by (cases "SYN (tcp_Header pkt)")
         (auto simp: tcp_defs intro!: dispatchFrameI_new [where c = "tcp_connID pkt"
            and h = "TCPHandler (created d) (tcp_connID pkt)"])
  qed
qed

lemma udp_frame:
  assumes "udp e dg d = Inr d'"
  shows "dispatchFrame d d'"
proof (cases "handlers d (udp_connID dg)")
  case (Some h)
  with assms show ?thesis
    by (auto simp: udp_defs split: Handler.splits intro!: dispatchFrameI_same)
next
  case None
  show ?thesis
  proof (cases "DestinationPort (udp_Header dg) = dnsPort d
                  \<and> IP_Equal (Destination (udp_IPHeader dg)) (dnsIP d)")
    case False
    with assms None show ?thesis
      by (intro dispatchFrameI_new [where c = "udp_connID dg"
            and h = "UDPHandler (created d) (udp_connID dg)"])
         (auto simp: udp_defs)
  next
    case True
    show ?thesis
    proof (cases "NewDnsInterceptorErr e")
      case (Some err)
      with assms None True show ?thesis
        by (auto simp: udp_defs intro!: dispatchFrameI_same)
    next
      case None2: None
      with assms None True show ?thesis
        by (intro dispatchFrameI_new [where c = "udp_connID dg"
              and h = "DnsInterceptor (created d) (udp_connID dg)"])
           (auto simp: udp_defs)
    qed
  qed
qed

lemma dispatchFrame_field:
  "dispatchFrame d (d\<lparr>fragmentMap := fm\<rparr>)"
  "dispatchFrame d (d\<lparr>poolPut := pp\<rparr>)"
  "dispatchFrame d (d\<lparr>toTunCh := q\<rparr>)"
  "dispatchFrame d (d\<lparr>dlog := l\<rparr>)"
  by (simp_all add: dispatchFrame_def)

lemma dispatchFrame_trans:
  "dispatchFrame d d1 \<Longrightarrow> closing d2 = closing d1 \<Longrightarrow> devClosed d2 = devClosed d1 \<Longrightarrow>
   closeSignalled d2 = closeSignalled d1 \<Longrightarrow> created d2 = created d1 \<Longrightarrow>
   running d2 = running d1 \<Longrightarrow> handlers d2 = handlers d1 \<Longrightarrow>
   handlersWg d2 = handlersWg d1 \<Longrightarrow> dispatchFrame d d2"
  by (simp add: dispatchFrame_def)

lemma dispatchFrame_pre:
  "closing d1 = closing d \<Longrightarrow> devClosed d1 = devClosed d \<Longrightarrow>
   closeSignalled d1 = closeSignalled d \<Longrightarrow> created d1 = created d \<Longrightarrow>
   running d1 = running d \<Longrightarrow> handlers d1 = handlers d \<Longrightarrow>
   handlersWg d1 = handlersWg d \<Longrightarrow> dispatchFrame d1 d2 \<Longrightarrow> dispatchFrame d d2"
  by (simp add: dispatchFrame_def)

lemma switchL4_frame:
  assumes "switchL4 e ipHdr data d = Inr d'"
  shows "dispatchFrame d d'"
proof (cases "passedOn ipHdr data")
  case False
  with assms show ?thesis
    by (auto simp: passedOn_def hp_defs proto_defs Let_def dispatchFrame_def split: if_splits)
next
  case True
  show ?thesis
  proof (cases "L4Protocol ipHdr = IPPROTO_TCP")
    case tcp: True
    with assms obtain d1 where "tcp e (PacketFromData ipHdr data) d = Inr d1" "d' = d1"
      by (auto simp: switchL4_def deferred_def split: sum.splits)
    then show ?thesis using tcp_frame by blast
  next
    case False
    with True assms obtain d1 where
      "udp e (DatagramFromData ipHdr data) d = Inr d1" "d' = d1"
      by (auto simp: passedOn_def switchL4_def deferred_def Let_def split: sum.splits)
    then show ?thesis using udp_frame by blast
  qed
qed

lemma handlePacket_frame:
  assumes "handlePacket e data d = Inr d'"
  shows "dispatchFrame d d'"
proof (cases "ParseHeader data")
  case (Inl err)
  with assms show ?thesis by (auto simp: hp_defs dispatchFrame_def)
next
  case (Inr ipHdr)
  show ?thesis
  proof (cases "PayloadLen ipHdr > MTU e - HeaderLen ipHdr")
    case True
    with assms Inr show ?thesis by (auto simp: hp_defs dispatchFrame_def)
  next
    case False
    obtain r1 d1 where re: "reassembled e ipHdr data d = (r1, d1)"
      by (cases "reassembled e ipHdr data d")
    define fm where "fm = fragmentMap d1"
    have d1: "d1 = d\<lparr>fragmentMap := fm\<rparr>"
      using reassembled_frame [OF re] by (simp add: fm_def)
    show ?thesis
    proof (cases r1)
      case None
      with assms Inr False re d1 show ?thesis
        by (auto simp: handlePacket_def deferred_def dispatchFrame_def)
    next
      case (Some data1)
      with assms Inr False re have "switchL4 e ipHdr data1 d1 = Inr d'"
        by (simp add: handlePacket_def)
      from switchL4_frame [OF this] show ?thesis
        unfolding d1 by (rule dispatchFrame_pre [rotated -1]) simp_all
    qed
  qed
qed


lemma writerIteration_frame:
  "writerIteration e d = (r, d') \<Longrightarrow> dispatchFrame d d'"
  by (auto simp: writerIteration_def dev_Write_def pkt_SoftRelease_def dlog_write_def Let_def
      dispatchFrame_def split: if_splits list.splits option.splits)

lemma taskInv_frame:
  assumes "taskInv L d" and "dispatchFrame d d'"
  shows "taskInv L d'"
proof -
  from assms(2) consider
    (same) "created d' = created d" "running d' = running d" "handlers d' = handlers d"
           "handlersWg d \<le> handlersWg d'"
  | (new) c h where "created d' = Suc (created d)" "running d' = insert (created d) (running d)"
           "handlersWg d' = handlersWg d + 1" "handlers d c = None"
           "handlers d' = (handlers d)(c \<mapsto> h)" "instanceOf h = created d"
    unfolding dispatchFrame_def by blast
  then show ?thesis
  proof cases
    case same
    with assms(1) show ?thesis by (auto simp: taskInv_def)
  next
    case new
    from assms(1) have fin: "finite (running d)" and notin: "created d \<notin> running d"
      by (auto simp: taskInv_def)
    have reg: "\<exists>c' h'. handlers d' c' = Some h' \<and> instanceOf h' = t"
      if "t \<in> running d" for t
    proof -
      from assms(1) that obtain c' h' where ch: "handlers d c' = Some h'" "instanceOf h' = t"
        by (auto simp: taskInv_def)
      with new(4) have "c' \<noteq> c" by auto
      with ch new(5) show ?thesis by auto
    qed
    from assms(1) new fin notin reg show ?thesis
      by (auto simp: taskInv_def less_Suc_eq)
  qed
qed

lemma taskInv_handlerDone:
  assumes "taskInv L d" and "t \<in> running d"
  shows "taskInv L (handlerDone t d)"
proof -
  from assms have fin: "finite (running d)" and pos: "card (running d) > 0"
    by (auto simp: taskInv_def card_gt_0_iff)
  have card: "int (card (running d - {t})) = int (card (running d)) - 1"
    using assms(2) fin pos by (simp add: card_Diff_singleton of_nat_diff)
  have reg: "\<exists>c h. handlers (handlerDone t d) c = Some h \<and> instanceOf h = t'"
    if "t' \<in> running d" "t' \<noteq> t" for t'
  proof -
    from assms(1) that(1) obtain c h where "handlers d c = Some h" "instanceOf h = t'"
      by (auto simp: taskInv_def)
    with that(2) show ?thesis
      by (auto simp: handlerDone_def intro!: exI [of _ c])
  qed
  from assms(1) fin card reg show ?thesis
    by (auto simp: taskInv_def handlerDone_def)
qed

lemma taskInv_fields:
  "taskInv L (atomic_StoreInt32_closing v d) = taskInv L d"
  "taskInv L (handlers_CloseAll d) = taskInv L d"
  "taskInv L (dev_Close d) = taskInv L d"
  "taskInv L (DataPool_Put b d) = taskInv L d"
  "taskInv L (send p d) = taskInv L d"
  by (simp_all add: taskInv_def atomic_StoreInt32_closing_def handlers_CloseAll_def
      dev_Close_def DataPool_Put_def send_def)

lemma registered_signalled:
  assumes "taskInv L d"
  shows "running d \<subseteq> closeSignalled (handlers_CloseAll d)"
proof
  fix t assume "t \<in> running d"
  with assms obtain c h where "handlers d c = Some h" "instanceOf h = t"
    by (auto simp: taskInv_def)
  then have "t \<in> instanceOf ` ran (handlers d)"
    by (auto simp: ran_def intro!: image_eqI [of _ _ h])
  then show "t \<in> closeSignalled (handlers_CloseAll d)"
    by (simp add: handlers_CloseAll_def)
qed

lemma stopInv_frame:
  assumes "stopInv s" and "dispatchFrame (disp s) d'"
  shows "stopInv (s\<lparr>disp := d', readerPC := pc, writerReturned := w\<rparr>)"
proof -
  from assms(1) have t: "taskInv (liveAtStop s) (disp s)"
    by (simp add: stopInv_def)
  then have fresh: "created (disp s) \<notin> liveAtStop s"
    by (auto simp: taskInv_def)
  from assms(2) have r: "running d' = running (disp s)
      \<or> running d' = insert (created (disp s)) (running (disp s))"
    and f: "closing d' = closing (disp s)" "devClosed d' = devClosed (disp s)"
           "closeSignalled d' = closeSignalled (disp s)"
    by (auto simp: dispatchFrame_def)
  from r fresh have i: "liveAtStop s \<inter> running d' = liveAtStop s \<inter> running (disp s)"
    by auto
  from assms(1) taskInv_frame [OF t assms(2)] f i show ?thesis
    by (auto simp: stopInv_def split: StopPC.splits)
qed

lemma stopInv_step:
  assumes "stopInv s" and "step e s s'"
  shows "stopInv s'"
  using assms(2, 1)
proof (cases rule: step.cases)
  case stop_flag_closing
  with assms(1) show ?thesis
    by (auto simp: stopInv_def taskInv_fields taskInv_def atomic_StoreInt32_closing_def)
next
  case stop_signal
  with assms(1) registered_signalled [of "liveAtStop s" "disp s"] show ?thesis
    by (auto simp: stopInv_def taskInv_fields) (auto simp: handlers_CloseAll_def)
next
  case (stop_wait d')
  then have z: "handlersWg (disp s) = 0" "d' = disp s"
    by (auto simp: handlersWg_Wait_def split: if_splits)
  with assms(1) have "running (disp s) = {}"
    by (auto simp: stopInv_def taskInv_def)
  with assms(1) stop_wait z show ?thesis
    by (auto simp: stopInv_def)
next
  case stop_flag_closed
  with assms(1) show ?thesis
    by (auto simp: stopInv_def taskInv_fields) (auto simp: atomic_StoreInt32_closing_def)
next
  case stop_dev_close
  with assms(1) show ?thesis
    by (auto simp: stopInv_def taskInv_fields) (auto simp: dev_Close_def)
next
  case (reader_guard b)
  with assms(1) show ?thesis by (auto simp: stopInv_def split: StopPC.splits)
next
  case reader_exit
  with assms(1) show ?thesis by (auto simp: stopInv_def split: StopPC.splits)
next
  case (reader_read_nothing b)
  with assms(1) show ?thesis by simp
next
  case (reader_read_error b)
  have "dispatchFrame (disp s) (DataPool_Put b (disp s))"
    by (simp add: dispatchFrame_def DataPool_Put_def)
  from stopInv_frame [OF assms(1) this, where w = "writerReturned s"] reader_read_error
  show ?thesis by simp
next
  case (reader_read_packet b data)
  with assms(1) show ?thesis by (auto simp: stopInv_def split: StopPC.splits)
next
  case (reader_handle data d')
  from stopInv_frame [OF assms(1) handlePacket_frame [OF reader_handle(3)],
      where pc = ReaderLoop and w = "writerReturned s"] reader_handle
  show ?thesis by simp
next
  case (reader_panic data p)
  with assms(1) show ?thesis by (auto simp: stopInv_def split: StopPC.splits)
next
  case (writer_iteration r d')
  from stopInv_frame [OF assms(1) writerIteration_frame [OF writer_iteration(3)],
      where pc = "readerPC s"] writer_iteration
  show ?thesis by simp
next
  case (handler_done t)
  with assms(1) taskInv_handlerDone [of "liveAtStop s" "disp s" t] show ?thesis
    by (auto simp: stopInv_def split: StopPC.splits) (auto simp: handlerDone_def)
next
  case (handler_send n)
  have "dispatchFrame (disp s) (send (HandlerPacket n) (disp s))"
    by (simp add: dispatchFrame_def send_def)
  from stopInv_frame [OF assms(1) this, where pc = "readerPC s" and w = "writerReturned s"]
    handler_send
  show ?thesis by simp
qed

lemma stopInv_initial: "initial s \<Longrightarrow> stopInv s"
  by (simp add: initial_def stopInv_def taskInv_def)

lemma stopInv_run: "run s s' \<Longrightarrow> stopInv s \<Longrightarrow> stopInv s'"
  by (induction rule: run.induct) (auto intro: stopInv_step)

lemma stopInv_reachable: "reachable s \<Longrightarrow> stopInv s"
  unfolding reachable_def using stopInv_initial stopInv_run by blast


lemma writerIteration_same:
  "writerIteration e d = (r, d') \<Longrightarrow>
     closing d' = closing d \<and> created d' = created d \<and> running d' = running d"
  by (auto simp: writerIteration_def dev_Write_def pkt_SoftRelease_def dlog_write_def Let_def
      split: if_splits list.splits option.splits)

lemma closed_step:
  assumes "stopInv s" and "closing (disp s) = 2" and "readerAtGuard s" and "step e s s'"
  shows "closing (disp s') = 2 \<and> readerAtGuard s' \<and> created (disp s') = created (disp s)
         \<and> running (disp s') \<subseteq> running (disp s)"
  using assms(4)
proof (cases rule: step.cases)
  case (writer_iteration r d')
  with assms(2,3) writerIteration_same [OF writer_iteration(3)] show ?thesis
    by (simp add: readerAtGuard_def)
next
  case (handler_done t)
  with assms(2,3) show ?thesis
    by (auto simp: readerAtGuard_def handlerDone_def)
qed (use assms(1-3) in \<open>auto simp: stopInv_def readerAtGuard_def dev_Close_def send_def
      split: StopPC.splits\<close>)

lemma closed_run:
  assumes "run s s'" and "stopInv s" and "closing (disp s) = 2" and "readerAtGuard s"
  shows "stopInv s' \<and> closing (disp s') = 2 \<and> readerAtGuard s'
         \<and> created (disp s') = created (disp s) \<and> running (disp s') \<subseteq> running (disp s)"
  using assms
proof (induction rule: run.induct)
  case (run_refl s)
  then show ?case by simp
next
  case (run_step s s1 e s2)
  then have a: "stopInv s1" "closing (disp s1) = 2" "readerAtGuard s1"
       "created (disp s1) = created (disp s)" "running (disp s1) \<subseteq> running (disp s)"
    by simp_all
  from closed_step [OF a(1-3) run_step(2)] stopInv_step [OF a(1) run_step(2)] a(4,5)
  show ?case by auto
qed

lemma handlePacket_syn:
  "handlePacket sampleEnv (tcpData True False) (NewDispatcher\<lparr>closing := v\<rparr>)
     = Inr (oneHandler\<lparr>closing := v\<rparr>)"
  by (simp add: hp_defs tcp_defs tcp_connID_def oneHandler_def synConnID_def sample_defs
      sample2_defs proto_defs frag_defs)

lemma initial_initialSystem: "initial initialSystem"
  by (simp add: initial_def initialSystem_def NewDispatcher_def)

lemma run_one: "run s s1 \<Longrightarrow> step e s1 s2 \<Longrightarrow> s2 = s3 \<Longrightarrow> run s s3"
  by (auto intro: run_step)

lemma reachable_lateHandlerSystem: "reachable lateHandlerSystem"
proof -
  let ?s0 = initialSystem
  let ?s1 = "?s0\<lparr>disp := atomic_StoreInt32_closing 1 (disp ?s0), stopPC := StopFlagClosing,
                   liveAtStop := running (disp ?s0)\<rparr>"
  let ?s2 = "?s1\<lparr>readerPC := ReaderRead (tcpData False False)\<rparr>"
  let ?s3 = "?s2\<lparr>readerPC := ReaderHandle (tcpData True False)\<rparr>"
  let ?s4 = "?s3\<lparr>disp := oneHandler\<lparr>closing := 1\<rparr>, readerPC := ReaderLoop\<rparr>"
  have 1: "step sampleEnv ?s0 ?s1"
    by (rule stop_flag_closing) (simp add: initialSystem_def)
  have 2: "step sampleEnv ?s1 ?s2"
    by (rule reader_guard)
       (simp_all add: initialSystem_def atomic_StoreInt32_closing_def NewDispatcher_def)
  have 3: "step sampleEnv ?s2 ?s3"
    by (rule reader_read_packet [where b = "tcpData False False"])
       (simp_all add: sample2_defs sample_defs)
  have "handlePacket sampleEnv (tcpData True False) (disp ?s3) = Inr (oneHandler\<lparr>closing := 1\<rparr>)"
    using handlePacket_syn [of 1]
    by (simp add: initialSystem_def atomic_StoreInt32_closing_def)
  then have 4: "step sampleEnv ?s3 ?s4"
    by (intro reader_handle [where data = "tcpData True False"]) simp_all
  have "run ?s0 ?s4"
    using run_refl [of ?s0] 1 2 3 4 by (blast intro: run_step)
  moreover have "?s4 = lateHandlerSystem"
    by (simp add: lateHandlerSystem_def initialSystem_def atomic_StoreInt32_closing_def
        NewDispatcher_def)
  ultimately show ?thesis
    unfolding reachable_def using initial_initialSystem by auto
qed


lemma reachable_stoppedSystem: "reachable stoppedSystem"
proof -
  define d4 where "d4 = atomic_StoreInt32_closing 1 oneHandler"
  define d5 where "d5 = handlers_CloseAll d4"
  define d6 where "d6 = handlerDone 0 d5"
  define d8 where "d8 = atomic_StoreInt32_closing 2 d6"
  define mk where "mk = (\<lambda>d pc rd live.
    \<lparr>disp = d, stopPC = pc, readerPC = rd, writerReturned = False, liveAtStop = live\<rparr>)"
  define s1 where "s1 = mk NewDispatcher StopNotCalled (ReaderRead (tcpData False False)) {}"
  define s2 where "s2 = mk NewDispatcher StopNotCalled (ReaderHandle (tcpData True False)) {}"
  define s3 where "s3 = mk oneHandler StopNotCalled ReaderLoop {}"
  define s4 where "s4 = mk d4 StopFlagClosing ReaderLoop {0}"
  define s5 where "s5 = mk d5 StopSignalled ReaderLoop {0}"
  define s6 where "s6 = mk d6 StopSignalled ReaderLoop {0}"
  define s7 where "s7 = mk d6 StopWaited ReaderLoop {0}"
  define s8 where "s8 = mk d8 StopFlagClosed ReaderLoop {0}"
  have s0: "initialSystem = mk NewDispatcher StopNotCalled ReaderLoop {}"
    by (simp add: initialSystem_def mk_def)
  have s9: "stoppedSystem = mk (dev_Close d8) StopReturned ReaderLoop {0}"
    by (simp add: stoppedSystem_def mk_def d8_def d6_def d5_def d4_def)
  have "step sampleEnv initialSystem (initialSystem\<lparr>readerPC := ReaderRead (tcpData False False)\<rparr>)"
    by (rule reader_guard) (simp_all add: initialSystem_def NewDispatcher_def)
  then have 1: "step sampleEnv initialSystem s1"
    by (simp add: s0 s1_def mk_def)
  have "step sampleEnv s1 (s1\<lparr>readerPC := ReaderHandle (tcpData True False)\<rparr>)"
    by (rule reader_read_packet [where b = "tcpData False False"])
       (simp_all add: s1_def mk_def sample2_defs sample_defs)
  then have 2: "step sampleEnv s1 s2"
    by (simp add: s1_def s2_def mk_def)
  have "handlePacket sampleEnv (tcpData True False) (disp s2) = Inr oneHandler"
    using handlePacket_syn [of 0]
    by (simp add: s2_def mk_def NewDispatcher_def oneHandler_def)
  then have "step sampleEnv s2 (s2\<lparr>disp := oneHandler, readerPC := ReaderLoop\<rparr>)"
    by (intro reader_handle [where data = "tcpData True False"]) (simp_all add: s2_def mk_def)
  then have 3: "step sampleEnv s2 s3"
    by (simp add: s2_def s3_def mk_def)
  have "step sampleEnv s3 (s3\<lparr>disp := atomic_StoreInt32_closing 1 (disp s3),
          stopPC := StopFlagClosing, liveAtStop := running (disp s3)\<rparr>)"
    by (rule stop_flag_closing) (simp add: s3_def mk_def)
  then have 4: "step sampleEnv s3 s4"
    by (simp add: s3_def s4_def mk_def d4_def oneHandler_def)
  have "step sampleEnv s4 (s4\<lparr>disp := handlers_CloseAll (disp s4), stopPC := StopSignalled\<rparr>)"
    by (rule stop_signal) (simp add: s4_def mk_def)
  then have 5: "step sampleEnv s4 s5"
    by (simp add: s4_def s5_def mk_def d5_def)
  have "0 \<in> running (disp s5)"
    by (simp add: s5_def mk_def d5_def d4_def handlers_CloseAll_def
        atomic_StoreInt32_closing_def oneHandler_def)
  then have "step sampleEnv s5 (s5\<lparr>disp := handlerDone 0 (disp s5)\<rparr>)"
    by (rule handler_done)
  then have 6: "step sampleEnv s5 s6"
    by (simp add: s5_def s6_def mk_def d6_def)
  have "handlersWg_Wait (disp s6) = Some d6"
    by (simp add: s6_def mk_def d6_def d5_def d4_def handlersWg_Wait_def handlerDone_def
        handlers_CloseAll_def atomic_StoreInt32_closing_def oneHandler_def)
  then have "step sampleEnv s6 (s6\<lparr>disp := d6, stopPC := StopWaited\<rparr>)"
    by (intro stop_wait) (simp_all add: s6_def mk_def)
  then have 7: "step sampleEnv s6 s7"
    by (simp add: s6_def s7_def mk_def)
  have "step sampleEnv s7 (s7\<lparr>disp := atomic_StoreInt32_closing 2 (disp s7),
          stopPC := StopFlagClosed\<rparr>)"
    by (rule stop_flag_closed) (simp add: s7_def mk_def)
  then have 8: "step sampleEnv s7 s8"
    by (simp add: s7_def s8_def mk_def d8_def)
  have "step sampleEnv s8 (s8\<lparr>disp := dev_Close (disp s8), stopPC := StopReturned\<rparr>)"
    by (rule stop_dev_close) (simp add: s8_def mk_def)
  then have 9: "step sampleEnv s8 stoppedSystem"
    by (simp add: s8_def s9 mk_def)
  note r0 = run_refl [of initialSystem]
  note r1 = run_step [OF r0 1]
  note r2 = run_step [OF r1 2]
  note r3 = run_step [OF r2 3]
  note r4 = run_step [OF r3 4]
  note r5 = run_step [OF r4 5]
  note r6 = run_step [OF r5 6]
  note r7 = run_step [OF r6 7]
  note r8 = run_step [OF r7 8]
  note r9 = run_step [OF r8 9]
  from r9 initial_initialSystem show ?thesis
    unfolding reachable_def by blast
qed


text \<open>
  C1, as amended. In every reachable state of the system: the flag is 0 until \<^verbatim>\<open>Stop\<close>
  is invoked, 1 from its first statement until its wait has returned, and 2 from then
  on; once \<^verbatim>\<open>CloseAll\<close> has run, every handler task that was live when \<^verbatim>\<open>Stop\<close>
  was invoked and still runs has been signalled; once the wait has returned, every such
  task has finished, so the flag is set to closed and the device is closed only after
  that; and the device is closed exactly when \<^verbatim>\<open>Stop\<close> has returned. The dispatch
  path does not consult the flag, and while \<^verbatim>\<open>Stop\<close> waits the reader still
  dispatches packets that create handlers (the counterexample below). What holds of
  new handlers: once the flag is closed and the reader stands at its loop guard or has
  returned, no run creates a handler any more.
\<close>

theorem Stop_choreography:
  assumes "reachable s"
  shows "(stopPC s = StopNotCalled \<longrightarrow> closing (disp s) = 0)
       \<and> (stopPC s \<in> {StopFlagClosing, StopSignalled, StopWaited} \<longrightarrow> closing (disp s) = 1)
       \<and> (stopPC s \<in> {StopFlagClosed, StopReturned} \<longrightarrow> closing (disp s) = 2)
       \<and> (stopPC s \<notin> {StopNotCalled, StopFlagClosing} \<longrightarrow>
            liveAtStop s \<inter> running (disp s) \<subseteq> closeSignalled (disp s))
       \<and> (stopPC s \<in> {StopWaited, StopFlagClosed, StopReturned} \<longrightarrow>
            liveAtStop s \<inter> running (disp s) = {})
       \<and> (devClosed (disp s) \<longleftrightarrow> stopPC s = StopReturned)
       \<and> (closing (disp s) = 2 \<and> readerAtGuard s \<and> run s s' \<longrightarrow>
            created (disp s') = created (disp s) \<and> running (disp s') \<subseteq> running (disp s))"
proof -
  from assms have inv: "stopInv s" by (rule stopInv_reachable)
  have pcs: "(stopPC s = StopNotCalled \<longrightarrow> closing (disp s) = 0)
       \<and> (stopPC s \<in> {StopFlagClosing, StopSignalled, StopWaited} \<longrightarrow> closing (disp s) = 1)
       \<and> (stopPC s \<in> {StopFlagClosed, StopReturned} \<longrightarrow> closing (disp s) = 2)
       \<and> (stopPC s \<notin> {StopNotCalled, StopFlagClosing} \<longrightarrow>
            liveAtStop s \<inter> running (disp s) \<subseteq> closeSignalled (disp s))
       \<and> (stopPC s \<in> {StopWaited, StopFlagClosed, StopReturned} \<longrightarrow>
            liveAtStop s \<inter> running (disp s) = {})
       \<and> (devClosed (disp s) \<longleftrightarrow> stopPC s = StopReturned)"
    using inv by (cases "stopPC s") (auto simp: stopInv_def)
  have "created (disp s') = created (disp s) \<and> running (disp s') \<subseteq> running (disp s)"
    if "closing (disp s) = 2" "readerAtGuard s" "run s s'"
    using closed_run [OF that(3) inv that(1,2)] by simp
  with pcs show ?thesis by blast
qed


theorem Stop_choreography_witness:
  "reachable stoppedSystem \<and> stopPC stoppedSystem = StopReturned
   \<and> liveAtStop stoppedSystem = {0} \<and> closeSignalled (disp stoppedSystem) = {0}
   \<and> running (disp stoppedSystem) = {}
   \<and> closing (disp stoppedSystem) = 2 \<and> devClosed (disp stoppedSystem)
   \<and> readerAtGuard stoppedSystem
   \<and> run stoppedSystem (stoppedSystem\<lparr>readerPC := ReaderReturned None\<rparr>)
   \<and> created (disp (stoppedSystem\<lparr>readerPC := ReaderReturned None\<rparr>))
       = created (disp stoppedSystem)"
proof -
  have c: "closing (disp stoppedSystem) = 2" "readerPC stoppedSystem = ReaderLoop"
    by (simp_all add: stoppedSystem_def dev_Close_def atomic_StoreInt32_closing_def)
  then have "step sampleEnv stoppedSystem (stoppedSystem\<lparr>readerPC := ReaderReturned None\<rparr>)"
    by (intro reader_exit) simp_all
  then have r: "run stoppedSystem (stoppedSystem\<lparr>readerPC := ReaderReturned None\<rparr>)"
    using run_refl run_step by blast
  have g: "readerAtGuard stoppedSystem"
    using c by (simp add: readerAtGuard_def)
  have f: "stopPC stoppedSystem = StopReturned" "liveAtStop stoppedSystem = {0}"
    "closeSignalled (disp stoppedSystem) = {0}" "running (disp stoppedSystem) = {}"
    by (simp_all add: stoppedSystem_def dev_Close_def atomic_StoreInt32_closing_def
        handlerDone_def handlers_CloseAll_def oneHandler_def NewDispatcher_def)
  from Stop_choreography [OF reachable_stoppedSystem,
      of "stoppedSystem\<lparr>readerPC := ReaderReturned None\<rparr>"] reachable_stoppedSystem c r g f
  show ?thesis by simp
qed

text \<open>
  \<^verbatim>\<open>Stop\<close> has set the flag to closing and no handler was live. The reader passes its
  guard (1 < 2), reads a SYN packet of a new flow and dispatches it: a handler is
  created and registered. \<^verbatim>\<open>handlePacket\<close> does the same with the flag at 2.
\<close>

theorem Stop_late_handler_counterexample:
  "reachable lateHandlerSystem \<and> stopPC lateHandlerSystem = StopFlagClosing
   \<and> closing (disp lateHandlerSystem) = 1 \<and> liveAtStop lateHandlerSystem = {}
   \<and> running (disp lateHandlerSystem) = {0}
   \<and> handlers (disp lateHandlerSystem) synConnID = Some (TCPHandler 0 synConnID)
   \<and> handlers (atomic_StoreInt32_closing 1 NewDispatcher) synConnID = None
   \<and> handlePacket sampleEnv (tcpData True False) (atomic_StoreInt32_closing 1 NewDispatcher)
       = Inr (oneHandler\<lparr>closing := 1\<rparr>)
   \<and> handlePacket sampleEnv (tcpData True False) (atomic_StoreInt32_closing 2 NewDispatcher)
       = Inr (oneHandler\<lparr>closing := 2\<rparr>)"
  using reachable_lateHandlerSystem handlePacket_syn [of 1] handlePacket_syn [of 2]
  by (simp add: lateHandlerSystem_def oneHandler_def atomic_StoreInt32_closing_def
      NewDispatcher_def)

end
